theory Spec2Isabelle
  imports Complex_Main "HOL-Library.Word" "HOL-Library.Log_Nat"
begin

section \<open>JavaScript values used by the GL tiled texture sources\<close>

text \<open>
  The development embeds \<^verbatim>\<open>src/ol/source/GlTiledTexture/GlTiledTextureGeoTiffTiles.js\<close>
  and its siblings \<^verbatim>\<open>GlTiledTextureGeoTiff\<close> and \<^verbatim>\<open>GlTiledTextureAbstract\<close>.

  Conventions. A private field \<^verbatim>\<open>x_\<close> of the source cannot keep its trailing underscore as
  a HOL name: it is written \<open>x_A\<close> in \<^verbatim>\<open>GlTiledTextureAbstract\<close>, \<open>x_T\<close> in
  \<^verbatim>\<open>GlTiledTextureGeoTiffTiles\<close> and \<open>x_G\<close> in \<^verbatim>\<open>GlTiledTextureGeoTiff\<close>.
  A value that may be \<^verbatim>\<open>undefined\<close> is an \<open>option\<close>, with \<open>None\<close> for \<^verbatim>\<open>undefined\<close>.
\<close>

subsection \<open>Rejection reasons and promises\<close>

text \<open>
  What a promise is rejected with, or what a call throws. \<open>Message\<close> is a string built by
  the code of this module, \<open>AssertionError\<close> a failed assertion of the cache,
  \<open>TypeError\<close> a property read on \<^verbatim>\<open>undefined\<close>, and \<open>External\<close> any failure of the
  GeoTIFF library or of the network, which this module only passes on.
\<close>

datatype reason = Message string | TypeError | AssertionError | External string

text \<open>
  A promise is modelled by its eventual outcome: it is fulfilled with a value, rejected
  with a reason, or it never settles. The moment at which it settles is not modelled.
\<close>

datatype 'a promise = Fulfilled 'a | Rejected reason | Pending

text \<open>
  \<^verbatim>\<open>p.then(f)\<close> where the callback returns a promise (a callback that returns a plain value
  returns \<open>Fulfilled\<close> of it): the callback runs only on fulfilment, a rejection passes
  through, and a promise that never settles gives one that never settles.
\<close>

fun then_promise :: "'a promise \<Rightarrow> ('a \<Rightarrow> 'b promise) \<Rightarrow> 'b promise" where
  "then_promise (Fulfilled v) f = f v"
| "then_promise (Rejected r) f = Rejected r"
| "then_promise Pending f = Pending"

text \<open>\<^verbatim>\<open>xs[i]\<close>: reading outside the array, or at \<^verbatim>\<open>undefined\<close>, gives \<^verbatim>\<open>undefined\<close>.\<close>

fun js_index :: "'a list \<Rightarrow> nat option \<Rightarrow> 'a option" where
  "js_index xs None = None"
| "js_index xs (Some i) = (if i < length xs then Some (xs ! i) else None)"

text \<open>The decimal digits of a natural number, as string conversion writes them.\<close>

fun decimal :: "nat \<Rightarrow> string" where
  "decimal n =
     (if n < 10 then [''0123456789'' ! n]
      else decimal (n div 10) @ [''0123456789'' ! (n mod 10)])"

declare decimal.simps [simp del]

text \<open>\<^verbatim>\<open>${v}\<close> in a template literal, for a number that may be \<^verbatim>\<open>undefined\<close>.\<close>

fun js_string :: "nat option \<Rightarrow> string" where
  "js_string None = ''undefined''"
| "js_string (Some n) = decimal n"

text \<open>\<^verbatim>\<open>${s}\<close> in a template literal, for a string that may be \<^verbatim>\<open>undefined\<close>.\<close>

fun js_text :: "string option \<Rightarrow> string" where
  "js_text None = ''undefined''"
| "js_text (Some s) = s"

subsection \<open>Numbers\<close>

text \<open>
  Coordinates are JavaScript numbers, that is IEEE 754 binary64 values. A finite one is
  modelled by the rational it denotes, next to the three special values; the sign of zero
  is not modelled. Every arithmetic operation returns the exact result rounded to the
  nearest double, a tie going to the double with the even significand. Pixel counts and
  indices are natural numbers.
\<close>

datatype jsnum = Num rat | PosInf | NegInf | NaN

text \<open>The nearest integer, a half going to the even neighbour.\<close>

definition roundHalfEven :: "rat \<Rightarrow> int" where
  "roundHalfEven q =
     (let f = \<lfloor>q\<rfloor>; r = q - of_int f
      in if r < 1 / 2 then f
         else if r > 1 / 2 then f + 1
         else if even f then f else f + 1)"

text \<open>
  The binade of a positive rational \<open>x\<close>: the integer \<open>e\<close> with \<open>2 powi e \<le> x < 2 powi (e + 1)\<close>.
  With \<open>bitlen\<close> the number of binary digits, the difference of the lengths of numerator
  and denominator is \<open>e\<close> or \<open>e + 1\<close>.
\<close>

definition binade :: "rat \<Rightarrow> int" where
  "binade x =
     (case quotient_of x of (p, q) \<Rightarrow>
        (let e = bitlen p - bitlen q in if 2 powi e \<le> x then e else e - 1))"

text \<open>The exponent of the doubles around \<open>x\<close>: the subnormal ones share the exponent -1022.\<close>

definition exponent :: "rat \<Rightarrow> int" where
  "exponent x = max (binade x) (- 1022)"

text \<open>The distance between neighbouring doubles around \<open>x\<close>: a significand has 53 bits.\<close>

definition ulp :: "rat \<Rightarrow> rat" where
  "ulp x = 2 powi (exponent x - 52)"

text \<open>The multiple of \<open>ulp x\<close> nearest to a non-negative \<open>x\<close>.\<close>

definition nearest :: "rat \<Rightarrow> rat" where
  "nearest x = of_int (roundHalfEven (x / ulp x)) * ulp x"

text \<open>
  Rounding a non-negative rational to a double. The largest exponent of a double is 1023:
  a result from \<open>2 ^ 1024\<close> on is \<^verbatim>\<open>Infinity\<close>.
\<close>

definition toDouble_pos :: "rat \<Rightarrow> jsnum" where
  "toDouble_pos x = (let y = nearest x in if binade y > 1023 then PosInf else Num y)"

fun js_negate :: "jsnum \<Rightarrow> jsnum" where
  "js_negate (Num a) = Num (- a)"
| "js_negate PosInf = NegInf"
| "js_negate NegInf = PosInf"
| "js_negate NaN = NaN"

text \<open>Rounding any rational to a double: the rounding is symmetric about zero.\<close>

definition toDouble :: "rat \<Rightarrow> jsnum" where
  "toDouble x = (if x \<ge> 0 then toDouble_pos x else js_negate (toDouble_pos (- x)))"

text \<open>The finite numbers that a double holds exactly.\<close>

definition isDouble :: "rat \<Rightarrow> bool" where
  "isDouble x = (toDouble x = Num x)"

text \<open>\<^verbatim>\<open>a - b\<close> for finite operands.\<close>

definition js_sub :: "rat \<Rightarrow> rat \<Rightarrow> jsnum" where
  "js_sub a b = toDouble (a - b)"

text \<open>
  \<^verbatim>\<open>a / b\<close>. NaN in gives NaN out, as does \<^verbatim>\<open>0 / 0\<close> and a quotient of two infinities; a
  finite number over an infinity is zero. A zero divisor counts as \<^verbatim>\<open>+0\<close>.
\<close>

fun js_div :: "jsnum \<Rightarrow> jsnum \<Rightarrow> jsnum" where
  "js_div NaN b = NaN"
| "js_div a NaN = NaN"
| "js_div (Num a) (Num b) =
     (if b \<noteq> 0 then toDouble (a / b)
      else if a > 0 then PosInf
      else if a < 0 then NegInf
      else NaN)"
| "js_div (Num a) b = Num 0"
| "js_div PosInf (Num b) = (if b < 0 then NegInf else PosInf)"
| "js_div NegInf (Num b) = (if b < 0 then PosInf else NegInf)"
| "js_div a b = NaN"

text \<open>\<^verbatim>\<open>a * b\<close> for a finite, non-negative second operand (a pixel count).\<close>

fun js_times :: "jsnum \<Rightarrow> nat \<Rightarrow> jsnum" where
  "js_times (Num a) n = toDouble (a * of_nat n)"
| "js_times PosInf n = (if n = 0 then NaN else PosInf)"
| "js_times NegInf n = (if n = 0 then NaN else NegInf)"
| "js_times NaN n = NaN"

text \<open>\<^verbatim>\<open>a - b\<close> for a finite first operand (a pixel count).\<close>

fun js_minus :: "nat \<Rightarrow> jsnum \<Rightarrow> jsnum" where
  "js_minus n (Num b) = toDouble (of_nat n - b)"
| "js_minus n PosInf = NegInf"
| "js_minus n NegInf = PosInf"
| "js_minus n NaN = NaN"

text \<open>\<^verbatim>\<open>a < b\<close> and \<^verbatim>\<open>a > b\<close> against a finite number; every comparison with NaN is false.\<close>

fun js_less :: "jsnum \<Rightarrow> rat \<Rightarrow> bool" where
  "js_less (Num a) b = (a < b)"
| "js_less NegInf b = True"
| "js_less PosInf b = False"
| "js_less NaN b = False"

fun js_greater :: "jsnum \<Rightarrow> rat \<Rightarrow> bool" where
  "js_greater (Num a) b = (a > b)"
| "js_greater PosInf b = True"
| "js_greater NegInf b = False"
| "js_greater NaN b = False"

text \<open>
  \<^verbatim>\<open>Math.round\<close>: the nearest integer, a half rounded towards plus infinity. The result
  is exact: the integer nearest to a double is a double.
\<close>

fun Math_round :: "jsnum \<Rightarrow> jsnum" where
  "Math_round (Num a) = Num (of_int \<lfloor>a + 1 / 2\<rfloor>)"
| "Math_round PosInf = PosInf"
| "Math_round NegInf = NegInf"
| "Math_round NaN = NaN"

text \<open>
  The integer a number becomes when it is stored in an integer typed array: the fraction
  is dropped (towards zero), and \<^verbatim>\<open>undefined\<close> (NaN) becomes 0. The typed array then keeps
  the low bits, which \<open>word_of_int\<close> does.
\<close>

fun js_to_integer :: "rat option \<Rightarrow> int" where
  "js_to_integer None = 0"
| "js_to_integer (Some q) = (if q < 0 then \<lceil>q\<rceil> else \<lfloor>q\<rfloor>)"

subsection \<open>The GeoTIFF library's objects\<close>

text \<open>Typed arrays: the three this module creates, and any other the library may return.\<close>

datatype typedArray =
    Uint8Array "8 word list"
  | Uint16Array "16 word list"
  | Int16Array "16 word list"
  | OtherArray "rat list"

text \<open>A worker pool is an opaque handle.\<close>

datatype pool = Pool nat

text \<open>An extent or bounding box \<^verbatim>\<open>[minX, minY, maxX, maxY]\<close>, read by index 0 to 3.\<close>

type_synonym extent = "rat \<times> rat \<times> rat \<times> rat"

fun at0 :: "extent \<Rightarrow> rat" where "at0 (a, b, c, d) = a"
fun at1 :: "extent \<Rightarrow> rat" where "at1 (a, b, c, d) = b"
fun at2 :: "extent \<Rightarrow> rat" where "at2 (a, b, c, d) = c"
fun at3 :: "extent \<Rightarrow> rat" where "at3 (a, b, c, d) = d"

text \<open>The options object passed to \<^verbatim>\<open>readRasters\<close>; a key that is not given is \<open>None\<close>.\<close>

record readOptions =
  window :: "jsnum list option"
  width :: nat
  height :: nat
  resampleMethod :: "string option"
  samples :: "nat option list"
  fillValue :: "rat option"
  pool :: "pool option"

text \<open>The tags of the image file directory that this module reads; an absent tag is \<open>None\<close>.\<close>

record fileDirectory =
  BitsPerSample :: "nat list option"
  SampleFormat :: "nat list option"

text \<open>
  A GeoTIFF image, by the methods this module calls. \<open>readRasters\<close> is the library's
  decoder: a function from the options to the promise of one typed array per sample.
\<close>

record geoTIFFImage =
  getWidth :: nat
  getHeight :: nat
  getBoundingBox :: extent
  getSamplesPerPixel :: nat
  getFileDirectory :: fileDirectory
  readRasters :: "readOptions \<Rightarrow> typedArray list promise"

record geoTIFF =
  getImage :: "geoTIFFImage promise"

text \<open>A tile coordinate \<^verbatim>\<open>[z, x, y]\<close> and a tile size \<^verbatim>\<open>[width, height]\<close>.\<close>

type_synonym tileCoord = "int \<times> int \<times> int"
type_synonym size = "nat \<times> nat"

text \<open>The tile source \<^verbatim>\<open>xyz\<close>, by the two methods \<^verbatim>\<open>getTiledData\<close> calls.\<close>

record tileImage =
  getTileCoordForTileUrlFunction :: "tileCoord \<Rightarrow> tileCoord"
  tileUrlFunction :: "tileCoord \<Rightarrow> string"

text \<open>
  The argument of \<^verbatim>\<open>getTiledData\<close>. Its \<^verbatim>\<open>tileGrid\<close> is read by neither class and is left
  out.
\<close>

record tiledDataParameters =
  tileCoord :: tileCoord
  tileSize :: size
  tileExtent :: extent

section \<open>The LRU cache\<close>

text \<open>
  \<^verbatim>\<open>src/ol/structs/LRUCache.js\<close> is imported by the module but is not among the sources.
  The spec describes it as a fixed-capacity least-recently-used cache keyed by URL. The
  entries are kept from the least recently used (the head) to the most recently used.
\<close>

record 'v lRUCache =
  highWaterMark :: nat
  entries :: "(string \<times> 'v) list"

text \<open>Modelled from the spec: the constructor of the missing LRUCache, an empty cache of
  the given fixed capacity.\<close>

definition LRUCache_new :: "nat \<Rightarrow> 'v lRUCache" where
  "LRUCache_new n = \<lparr>highWaterMark = n, entries = []\<rparr>"

text \<open>Modelled from the spec: the number of entries of the missing LRUCache.\<close>

definition getCount :: "'v lRUCache \<Rightarrow> nat" where
  "getCount c = length (entries c)"

text \<open>Modelled from the spec: whether the missing LRUCache holds more entries than its
  fixed capacity.\<close>

definition canExpireCache :: "'v lRUCache \<Rightarrow> bool" where
  "canExpireCache c = (highWaterMark c > 0 \<and> getCount c > highWaterMark c)"

text \<open>Modelled from the spec: whether the missing LRUCache has an entry under the key.\<close>

definition containsKey :: "'v lRUCache \<Rightarrow> string \<Rightarrow> bool" where
  "containsKey c k = (map_of (entries c) k \<noteq> None)"

text \<open>Modelled from the spec: reading a key of the missing LRUCache returns its value and
  makes the entry the most recently used; reading an absent key fails an assertion.\<close>

definition LRUCache_get :: "'v lRUCache \<Rightarrow> string \<Rightarrow> reason + ('v \<times> 'v lRUCache)" where
  "LRUCache_get c k =
     (case map_of (entries c) k of
        None \<Rightarrow> Inl AssertionError
      | Some v \<Rightarrow> Inr (v, c\<lparr>entries := filter (\<lambda>e. fst e \<noteq> k) (entries c) @ [(k, v)]\<rparr>))"

text \<open>Modelled from the spec: storing under a new key of the missing LRUCache adds the
  entry as the most recently used; storing under a key already present fails an
  assertion.\<close>

definition LRUCache_set :: "'v lRUCache \<Rightarrow> string \<Rightarrow> 'v \<Rightarrow> reason + 'v lRUCache" where
  "LRUCache_set c k v =
     (if containsKey c k then Inl AssertionError
      else Inr (c\<lparr>entries := entries c @ [(k, v)]\<rparr>))"

text \<open>Modelled from the spec: the key of the least recently used entry of the missing
  LRUCache.\<close>

definition peekLastKey :: "'v lRUCache \<Rightarrow> string option" where
  "peekLastKey c = (case entries c of [] \<Rightarrow> None | e # es \<Rightarrow> Some (fst e))"

text \<open>Modelled from the spec: eviction in the missing LRUCache removes the least recently
  used entry and returns its value; on an empty cache it reads a field of \<^verbatim>\<open>null\<close>.\<close>

definition LRUCache_pop :: "'v lRUCache \<Rightarrow> reason + ('v \<times> 'v lRUCache)" where
  "LRUCache_pop c =
     (case entries c of
        [] \<Rightarrow> Inl TypeError
      | e # es \<Rightarrow> Inr (snd e, c\<lparr>entries := es\<rparr>))"

section \<open>GlTiledTextureAbstract\<close>

record glTiledTextureAbstract =
  fetchFuncName_A :: "string option"

section \<open>The fetch function definition shared by both GeoTIFF classes\<close>

text \<open>
  The callbacks of \<^verbatim>\<open>GlTiledTextureGeoTiffTiles.getFetchFunctionDef\<close> and of
  \<^verbatim>\<open>GlTiledTextureGeoTiff.getFetchFunctionDef\<close> are the same text, line for line; they
  differ only in the promise they wait on. The callback is embedded once.

  The four rejection messages are one template with the bit depth and a kind filled in.
\<close>

definition notImplemented :: "nat option \<Rightarrow> string \<Rightarrow> string" where
  "notImplemented bits kind =
     ''GeoTIFF pixel format not yet implemented ('' @ js_string bits @ '' bits, '' @ kind @ '')''"

text \<open>
  The \<^verbatim>\<open>if\<close> chain on \<^verbatim>\<open>bits\<close> and \<^verbatim>\<open>format\<close> (1 = uint, 2 = int, 3 = float): the left
  summand is the message of \<^verbatim>\<open>Promise.reject\<close>, the right one the value of \<^verbatim>\<open>body\<close>. The
  third inner test repeats \<^verbatim>\<open>format === 2\<close>, as the source does.
\<close>

definition fetchBody :: "nat option \<Rightarrow> nat option \<Rightarrow> string + string" where
  "fetchBody bits format =
     (if bits = Some 8 \<and> format = Some 1 then Inr ''return texel.x * 256.;''
      else if bits = Some 8 \<and> format = Some 2 then Inr ''return texel.x * 256.;''
      else if bits = Some 16 \<and> format = Some 1 then
        Inr ''return texel.x * 256. + texel.a * 65536.0;''
      else if bits = Some 16 \<and> format = Some 2 then
        Inr ''return texel.x * 256. + texel.a * 65536.0;''
      else
        (if format = Some 1 then Inl (notImplemented bits ''uint'')
         else if format = Some 2 then Inl (notImplemented bits ''int'')
         else if format = Some 2 then Inl (notImplemented bits ''float'')
         else Inl (notImplemented bits ''unknown uint/int/float'')))"

text \<open>The GLSL function returned on success (a template literal over three lines).\<close>

definition glslFunction :: "string option \<Rightarrow> string \<Rightarrow> string \<Rightarrow> string" where
  "glslFunction fetchFuncName uniformName body =
     ''float '' @ js_text fetchFuncName @ ''(vec2 texelCoords) {\<newline>'' @
     ''        vec4 texel = texture2D('' @ uniformName @ '', texelCoords.st);\<newline>'' @
     ''        '' @ body @ ''\<newline>'' @
     ''      }''"

text \<open>
  The callback \<^verbatim>\<open>(img) => {...}\<close>. Reading an index of a tag that the file directory does
  not have throws a TypeError inside the callback, which rejects the promise.
\<close>

definition fetchFunctionDef ::
  "string option \<Rightarrow> nat option \<Rightarrow> string \<Rightarrow> geoTIFFImage \<Rightarrow> string promise" where
  "fetchFunctionDef fetchFuncName sample uniformName img =
     (let dir = getFileDirectory img in
      case BitsPerSample dir of
        None \<Rightarrow> Rejected TypeError
      | Some bps \<Rightarrow>
          (case SampleFormat dir of
             None \<Rightarrow> Rejected TypeError
           | Some sf \<Rightarrow>
               (let bits = js_index bps sample; format = js_index sf sample in
                case fetchBody bits format of
                  Inl msg \<Rightarrow> Rejected (Message msg)
                | Inr body \<Rightarrow> Fulfilled (glslFunction fetchFuncName uniformName body))))"

section \<open>GlTiledTextureGeoTiffTiles\<close>

subsection \<open>State\<close>

text \<open>
  \<open>factory_T\<close> is \<^verbatim>\<open>geotiffFactory\<close>, an external function that may answer differently each
  time it is called: its second argument is the number of effects that happened before
  the call. \<open>anyTile_T\<close> is the promise created by the constructor; it is settled only
  through \<^verbatim>\<open>resolveAnyTile_\<close>.
\<close>

record glTiledTextureGeoTiffTiles = glTiledTextureAbstract +
  sample_T :: "nat option"
  fillValue_T :: "rat option"
  factory_T :: "string \<Rightarrow> nat \<Rightarrow> geoTIFF promise"
  xyz_T :: tileImage
  pool_T :: "pool option"
  anyTile_T :: "geoTIFFImage promise"

text \<open>
  What lies outside the instances: the module-level \<^verbatim>\<open>geotiffCache\<close>, shared by all of
  them, and the trace of the effects that the claims speak of (a call of a factory, an
  eviction from the cache), in the order they happen.
\<close>

datatype effect = FactoryInvoked string | Evicted string

record world =
  geotiffCache :: "geoTIFF promise lRUCache"
  effects :: "effect list"

text \<open>\<^verbatim>\<open>const geotiffCache = new LRUCache(16)\<close>, before any call.\<close>

definition initialWorld :: world where
  "initialWorld = \<lparr>geotiffCache = LRUCache_new 16, effects = []\<rparr>"

text \<open>The constructor; no default is applied to an option that is not given.\<close>

definition GlTiledTextureGeoTiffTiles_new ::
  "tileImage \<Rightarrow> (string \<Rightarrow> nat \<Rightarrow> geoTIFF promise) \<Rightarrow> string option \<Rightarrow> nat option \<Rightarrow>
   rat option \<Rightarrow> pool option \<Rightarrow> glTiledTextureGeoTiffTiles" where
  "GlTiledTextureGeoTiffTiles_new xyz geotiffFactory fetchFuncName sample fillValue' pool' =
     \<lparr>fetchFuncName_A = fetchFuncName, sample_T = sample, fillValue_T = fillValue',
      factory_T = geotiffFactory, xyz_T = xyz, pool_T = pool', anyTile_T = Pending\<rparr>"

text \<open>\<^verbatim>\<open>this.resolveAnyTile_(img)\<close>: only the first call settles the promise.\<close>

definition resolveAnyTile :: "glTiledTextureGeoTiffTiles \<Rightarrow> geoTIFFImage \<Rightarrow> glTiledTextureGeoTiffTiles" where
  "resolveAnyTile this img =
     (case anyTile_T this of
        Pending \<Rightarrow> this\<lparr>anyTile_T := Fulfilled img\<rparr>
      | Fulfilled old \<Rightarrow> this
      | Rejected r \<Rightarrow> this)"

subsection \<open>getTiledData\<close>

text \<open>The URL of a tile (the first two statements of \<^verbatim>\<open>getTiledData\<close>).\<close>

definition tileUrl :: "glTiledTextureGeoTiffTiles \<Rightarrow> tiledDataParameters \<Rightarrow> string" where
  "tileUrl this p =
     (let urlTileCoord = getTileCoordForTileUrlFunction (xyz_T this) (tileCoord p)
      in tileUrlFunction (xyz_T this) urlTileCoord)"

text \<open>
  The \<^verbatim>\<open>if\<close> statement that sets the local variable \<^verbatim>\<open>instance\<close>: the cached promise, or
  a new one from the factory, stored and followed by one eviction when the cache is over
  its capacity. A failed assertion of the cache would be thrown to the caller.
\<close>

definition obtainInstance ::
  "glTiledTextureGeoTiffTiles \<Rightarrow> string \<Rightarrow> world \<Rightarrow> reason + (geoTIFF promise \<times> world)" where
  "obtainInstance this url w =
     (if containsKey (geotiffCache w) url then
        (case LRUCache_get (geotiffCache w) url of
           Inl e \<Rightarrow> Inl e
         | Inr (instance, c) \<Rightarrow> Inr (instance, w\<lparr>geotiffCache := c\<rparr>))
      else
        (let instance = factory_T this url (length (effects w));
             w1 = w\<lparr>effects := effects w @ [FactoryInvoked url]\<rparr>
         in case LRUCache_set (geotiffCache w1) url instance of
              Inl e \<Rightarrow> Inl e
            | Inr c \<Rightarrow>
                (if canExpireCache c then
                   (case LRUCache_pop c of
                      Inl e \<Rightarrow> Inl e
                    | Inr (old, c') \<Rightarrow>
                        Inr (instance,
                          w1\<lparr>geotiffCache := c',
                             effects := effects w1 @ map Evicted (case peekLastKey c of None \<Rightarrow> [] | Some k \<Rightarrow> [k])\<rparr>))
                 else Inr (instance, w1\<lparr>geotiffCache := c\<rparr>))))"

text \<open>
  What one call gives back: the eventual outcome of the returned promise, the options of
  every \<^verbatim>\<open>readRasters\<close> call it made, and the instance afterwards.
\<close>

record 'this tiledData =
  returned :: "typedArray option promise"
  rasterReads :: "readOptions list"
  thisAfter :: 'this

text \<open>The promise chain \<^verbatim>\<open>instance.then(...).then(...)\<close> of the \<^verbatim>\<open>return\<close> statement.\<close>

definition decodeTile ::
  "glTiledTextureGeoTiffTiles \<Rightarrow> tiledDataParameters \<Rightarrow> geoTIFF promise \<Rightarrow>
   glTiledTextureGeoTiffTiles tiledData" where
  "decodeTile this p instance =
     (case then_promise instance getImage of
        Fulfilled img \<Rightarrow>
          (let opts = \<lparr>window = None, width = fst (tileSize p), height = snd (tileSize p),
                       resampleMethod = None, samples = [sample_T this],
                       fillValue = fillValue_T this, pool = pool_T this\<rparr>
           in \<lparr>returned = then_promise (readRasters img opts)
                            (\<lambda>rasters. Fulfilled (js_index rasters (Some 0))),
               rasterReads = [opts],
               thisAfter = resolveAnyTile this img\<rparr>)
      | Rejected r \<Rightarrow> \<lparr>returned = Rejected r, rasterReads = [], thisAfter = this\<rparr>
      | Pending \<Rightarrow> \<lparr>returned = Pending, rasterReads = [], thisAfter = this\<rparr>)"

definition getTiledData_T ::
  "glTiledTextureGeoTiffTiles \<Rightarrow> tiledDataParameters \<Rightarrow> world \<Rightarrow>
   reason + (glTiledTextureGeoTiffTiles tiledData \<times> world)" where
  "getTiledData_T this p w =
     (case obtainInstance this (tileUrl this p) w of
        Inl e \<Rightarrow> Inl e
      | Inr (instance, w') \<Rightarrow> Inr (decodeTile this p instance, w'))"

subsection \<open>getFetchFunctionDef\<close>

definition getFetchFunctionDef_T :: "glTiledTextureGeoTiffTiles \<Rightarrow> string \<Rightarrow> string promise" where
  "getFetchFunctionDef_T this uniformName =
     then_promise (anyTile_T this)
       (fetchFunctionDef (fetchFuncName_A this) (sample_T this) uniformName)"

subsection \<open>Sequences of calls\<close>

text \<open>
  Calls of \<^verbatim>\<open>getTiledData\<close> one after the other, each on any instance (all instances share
  the world), the cache being handed from one call to the next. A call that throws ends
  the sequence with its error.
\<close>

fun getTiledData_calls ::
  "(glTiledTextureGeoTiffTiles \<times> tiledDataParameters) list \<Rightarrow> world \<Rightarrow> reason + world" where
  "getTiledData_calls [] w = Inr w"
| "getTiledData_calls (c # cs) w =
     (case getTiledData_T (fst c) (snd c) w of
        Inl e \<Rightarrow> Inl e
      | Inr (r, w') \<Rightarrow> getTiledData_calls cs w')"

text \<open>
  Calls of \<^verbatim>\<open>getTiledData\<close> on one instance, each in the world it finds (other instances may
  have changed the cache in between): the instance after the last call. A call that
  throws leaves the instance as it was.
\<close>

fun getTiledData_on ::
  "glTiledTextureGeoTiffTiles \<Rightarrow> (tiledDataParameters \<times> world) list \<Rightarrow> glTiledTextureGeoTiffTiles" where
  "getTiledData_on this [] = this"
| "getTiledData_on this (c # cs) =
     (case getTiledData_T this (fst c) (snd c) of
        Inl e \<Rightarrow> getTiledData_on this cs
      | Inr (r, w') \<Rightarrow> getTiledData_on (thisAfter r) cs)"

text \<open>
  The image promise \<^verbatim>\<open>instance.then((tiff) => tiff.getImage())\<close> of one call: whether the
  GeoTIFF image of that call loads.
\<close>

definition imageOfCall ::
  "glTiledTextureGeoTiffTiles \<Rightarrow> tiledDataParameters \<Rightarrow> world \<Rightarrow> geoTIFFImage promise" where
  "imageOfCall this p w =
     (case obtainInstance this (tileUrl this p) w of
        Inl e \<Rightarrow> Rejected e
      | Inr (instance, w') \<Rightarrow> then_promise instance getImage)"

fun isFulfilled :: "'a promise \<Rightarrow> bool" where
  "isFulfilled (Fulfilled v) = True"
| "isFulfilled (Rejected r) = False"
| "isFulfilled Pending = False"

text \<open>The keys of the cache, from the least to the most recently used.\<close>

definition cacheKeys :: "world \<Rightarrow> string list" where
  "cacheKeys w = map fst (entries (geotiffCache w))"

text \<open>
  A trace of effects is orderly from a set of live URLs when every factory call is for a
  URL that is not live and makes it live, and every eviction is of a live URL and ends
  its life.
\<close>

fun orderly :: "string list \<Rightarrow> effect list \<Rightarrow> bool" where
  "orderly live [] = True"
| "orderly live (FactoryInvoked u # es) = (u \<notin> set live \<and> orderly (u # live) es)"
| "orderly live (Evicted u # es) = (u \<in> set live \<and> orderly (removeAll u live) es)"

text \<open>The URLs still live after a trace: made live by a factory call, ended by an eviction.\<close>

fun liveAfter :: "string list \<Rightarrow> effect list \<Rightarrow> string list" where
  "liveAfter live [] = live"
| "liveAfter live (FactoryInvoked u # es) = liveAfter (u # live) es"
| "liveAfter live (Evicted u # es) = liveAfter (removeAll u live) es"

text \<open>
  What ties the trace to the cache: the trace is orderly, the live URLs are the keys of the
  cache, and no key is there twice.
\<close>

definition traceInv :: "world \<Rightarrow> bool" where
  "traceInv w \<longleftrightarrow>
     orderly [] (effects w) \<and>
     set (liveAfter [] (effects w)) = set (cacheKeys w) \<and>
     distinct (cacheKeys w)"

text \<open>The URLs that a sequence of calls asks for, in order.\<close>

definition requestedUrls ::
  "(glTiledTextureGeoTiffTiles \<times> tiledDataParameters) list \<Rightarrow> string list" where
  "requestedUrls cs = map (\<lambda>c. tileUrl (fst c) (snd c)) cs"

text \<open>
  In the words of the spec, a fixed-capacity least-recently-used cache keyed by URL holds,
  after the URLs were requested in the given order, the \<open>n\<close> most recently requested
  distinct URLs, the least recently requested first (\<open>remdups\<close> keeps the last occurrence
  of each URL). The keys of \<^verbatim>\<open>geotiffCache\<close> are compared with it.
\<close>

definition spec_lru_keys :: "nat \<Rightarrow> string list \<Rightarrow> string list" where
  "spec_lru_keys n urls = (let ks = remdups urls in drop (length ks - n) ks)"

section \<open>GlTiledTextureGeoTiff\<close>

subsection \<open>State\<close>

text \<open>
  The fields that \<^verbatim>\<open>loadImage_\<close> assigns are \<^verbatim>\<open>undefined\<close> until it runs. They are read only
  inside callbacks of \<open>tiff_G\<close>, which run after \<^verbatim>\<open>loadImage_\<close> has returned the image, so
  the numeric ones start at 0 here and \<open>emptyData_G\<close> at \<open>None\<close>.
\<close>

record glTiledTextureGeoTiff = glTiledTextureAbstract +
  sample_G :: "nat option"
  fillValue_G :: "rat option"
  pool_G :: "pool option"
  tiff_G :: "geoTIFFImage promise"
  width_G :: nat
  height_G :: nat
  bbox_G :: extent
  bboxWidth_G :: jsnum
  bboxHeight_G :: jsnum
  emptyData_G :: "typedArray option"

text \<open>The option \<^verbatim>\<open>tiff\<close>: a GeoTIFF (it has \<^verbatim>\<open>getImage\<close>), or a promise of one.\<close>

datatype tiffOption = Loaded geoTIFF | Promised "geoTIFF promise"

subsection \<open>loadImage_\<close>

text \<open>
  The method returns the image or a rejected promise, and assigns fields on the way. The
  comparison \<^verbatim>\<open>this.sample_ >= n\<close> is false for \<^verbatim>\<open>undefined\<close>.
\<close>

definition loadImage ::
  "glTiledTextureGeoTiff \<Rightarrow> geoTIFFImage \<Rightarrow> geoTIFFImage promise \<times> glTiledTextureGeoTiff" where
  "loadImage this img =
     (let this1 = this\<lparr>width_G := getWidth img, height_G := getHeight img,
                       bbox_G := getBoundingBox img,
                       bboxWidth_G := js_sub (at2 (getBoundingBox img)) (at0 (getBoundingBox img)),
                       bboxHeight_G := js_sub (at3 (getBoundingBox img)) (at1 (getBoundingBox img))\<rparr>
      in
      if (case sample_G this1 of None \<Rightarrow> False | Some s \<Rightarrow> s \<ge> getSamplesPerPixel img) then
        (Rejected (Message (''Requested sample '' @ js_string (sample_G this1) @ '', but only '' @
            decimal (getSamplesPerPixel img) @ '' samples are available'')), this1)
      else
        (let dir = getFileDirectory img in
         case BitsPerSample dir of
           None \<Rightarrow> (Rejected TypeError, this1)
         | Some bps \<Rightarrow>
             (case SampleFormat dir of
                None \<Rightarrow> (Rejected TypeError, this1)
              | Some sf \<Rightarrow>
                  (let bits = js_index bps (sample_G this1);
                       format = js_index sf (sample_G this1);
                       n = width_G this1 * height_G this1;
                       fill = js_to_integer (fillValue_G this1)
                   in
                   if bits = Some 8 \<and> format = Some 1 then
                     (Fulfilled img,
                      this1\<lparr>emptyData_G := Some (Uint8Array (replicate n (word_of_int fill)))\<rparr>)
                   else if bits = Some 16 \<and> format = Some 1 then
                     (Fulfilled img,
                      this1\<lparr>emptyData_G := Some (Uint16Array (replicate n (word_of_int fill)))\<rparr>)
                   else if bits = Some 16 \<and> format = Some 2 then
                     (Fulfilled img,
                      this1\<lparr>emptyData_G := Some (Int16Array (replicate n (word_of_int fill)))\<rparr>)
                   else
                     (Rejected (Message ''FIXME: could not create empty tile data for GeoTIFF sample format, or unsupported (32-bit) format''),
                      this1)))))"

subsection \<open>The constructor\<close>

definition GlTiledTextureGeoTiff_new ::
  "tiffOption \<Rightarrow> string option \<Rightarrow> nat option \<Rightarrow> rat option \<Rightarrow> pool option \<Rightarrow>
   glTiledTextureGeoTiff" where
  "GlTiledTextureGeoTiff_new tiff fetchFuncName sample fillValue' pool' =
     (let this = \<lparr>fetchFuncName_A = fetchFuncName, sample_G = sample, fillValue_G = fillValue',
                   pool_G = pool', tiff_G = Pending, width_G = 0, height_G = 0,
                   bbox_G = (0, 0, 0, 0), bboxWidth_G = Num 0, bboxHeight_G = Num 0,
                   emptyData_G = None\<rparr>;
          image = (case tiff of
                     Promised p \<Rightarrow> then_promise p getImage
                   | Loaded t \<Rightarrow> getImage t)
      in case image of
           Fulfilled img \<Rightarrow> (case loadImage this img of (r, this') \<Rightarrow> this'\<lparr>tiff_G := r\<rparr>)
         | Rejected r \<Rightarrow> this\<lparr>tiff_G := Rejected r\<rparr>
         | Pending \<Rightarrow> this)"

subsection \<open>getTiledData\<close>

text \<open>The four pixel coordinates \<^verbatim>\<open>x1\<close>, \<^verbatim>\<open>x2\<close>, \<^verbatim>\<open>y1\<close>, \<^verbatim>\<open>y2\<close> of a tile extent.\<close>

definition pixel_x1 :: "glTiledTextureGeoTiff \<Rightarrow> extent \<Rightarrow> jsnum" where
  "pixel_x1 this e =
     js_times (js_div (js_sub (at2 e) (at0 (bbox_G this))) (bboxWidth_G this)) (width_G this)"

definition pixel_x2 :: "glTiledTextureGeoTiff \<Rightarrow> extent \<Rightarrow> jsnum" where
  "pixel_x2 this e =
     js_times (js_div (js_sub (at0 e) (at0 (bbox_G this))) (bboxWidth_G this)) (width_G this)"

definition pixel_y1 :: "glTiledTextureGeoTiff \<Rightarrow> extent \<Rightarrow> jsnum" where
  "pixel_y1 this e =
     js_times (js_div (js_sub (at3 e) (at1 (bbox_G this))) (bboxHeight_G this)) (height_G this)"

definition pixel_y2 :: "glTiledTextureGeoTiff \<Rightarrow> extent \<Rightarrow> jsnum" where
  "pixel_y2 this e =
     js_times (js_div (js_sub (at1 e) (at1 (bbox_G this))) (bboxHeight_G this)) (height_G this)"

text \<open>The test \<^verbatim>\<open>x1 < 0 || x2 > this.width_ || y1 < 0 || y2 > this.height_\<close>.\<close>

definition outOfBounds :: "glTiledTextureGeoTiff \<Rightarrow> extent \<Rightarrow> bool" where
  "outOfBounds this e =
     (js_less (pixel_x1 this e) 0 \<or> js_greater (pixel_x2 this e) (of_nat (width_G this)) \<or>
      js_less (pixel_y1 this e) 0 \<or> js_greater (pixel_y2 this e) (of_nat (height_G this)))"

text \<open>
  The outcome of the returned promise and the options of the \<^verbatim>\<open>readRasters\<close> calls made.
  The method assigns no field.
\<close>

definition getTiledData_G ::
  "glTiledTextureGeoTiff \<Rightarrow> tiledDataParameters \<Rightarrow> typedArray option promise \<times> readOptions list" where
  "getTiledData_G this p =
     (case tiff_G this of
        Fulfilled img \<Rightarrow>
          (let x1 = pixel_x1 this (tileExtent p);
               x2 = pixel_x2 this (tileExtent p);
               y1 = pixel_y1 this (tileExtent p);
               y2 = pixel_y2 this (tileExtent p)
           in
           if outOfBounds this (tileExtent p) then (Fulfilled (emptyData_G this), [])
           else
             (let opts = \<lparr>window = Some (map Math_round
                                  [x2, js_minus (height_G this) y1, x1, js_minus (height_G this) y2]),
                          width = fst (tileSize p), height = snd (tileSize p),
                          resampleMethod = Some ''nearest'', samples = [sample_G this],
                          fillValue = fillValue_G this, pool = pool_G this\<rparr>
              in (then_promise (readRasters img opts)
                    (\<lambda>rasters. Fulfilled (js_index rasters (Some 0))),
                  [opts])))
      | Rejected r \<Rightarrow> (Rejected r, [])
      | Pending \<Rightarrow> (Pending, []))"

subsection \<open>getFetchFunctionDef\<close>

definition getFetchFunctionDef_G :: "glTiledTextureGeoTiff \<Rightarrow> string \<Rightarrow> string promise" where
  "getFetchFunctionDef_G this uniformName =
     then_promise (tiff_G this)
       (fetchFunctionDef (fetchFuncName_A this) (sample_G this) uniformName)"

subsection \<open>Reading a typed array, and the window in the words of the claim\<close>

text \<open>The elements of a typed array as numbers: unsigned for \<^verbatim>\<open>Uint8Array\<close> and
  \<^verbatim>\<open>Uint16Array\<close>, two's complement for \<^verbatim>\<open>Int16Array\<close>.\<close>

fun elementsOf :: "typedArray \<Rightarrow> rat list" where
  "elementsOf (Uint8Array xs) = map (\<lambda>x. of_int (uint x)) xs"
| "elementsOf (Uint16Array xs) = map (\<lambda>x. of_int (uint x)) xs"
| "elementsOf (Int16Array xs) = map (\<lambda>x. of_int (sint x)) xs"
| "elementsOf (OtherArray xs) = xs"

text \<open>
  The pixel window as the claim states it, from the image's own width, height and bounding
  box: \<^verbatim>\<open>[round(x2), round(H - y1), round(x1), round(H - y2)]\<close> with
  \<^verbatim>\<open>x = ((tileExtent_x - bbox[0]) / bboxWidth) * width\<close> at the right (\<^verbatim>\<open>x1\<close>) and left (\<^verbatim>\<open>x2\<close>)
  edges and \<^verbatim>\<open>y = ((tileExtent_y - bbox[1]) / bboxHeight) * height\<close> at the top (\<^verbatim>\<open>y1\<close>) and
  bottom (\<^verbatim>\<open>y2\<close>) edges, every operation in double arithmetic. It is compared with what
  \<^verbatim>\<open>getTiledData\<close> passes to \<^verbatim>\<open>readRasters\<close>.
\<close>

definition spec_window :: "geoTIFFImage \<Rightarrow> extent \<Rightarrow> jsnum list" where
  "spec_window img e =
     (let H = getHeight img;
          bbox = getBoundingBox img;
          bboxWidth = js_sub (at2 bbox) (at0 bbox);
          bboxHeight = js_sub (at3 bbox) (at1 bbox);
          x1 = js_times (js_div (js_sub (at2 e) (at0 bbox)) bboxWidth) (getWidth img);
          x2 = js_times (js_div (js_sub (at0 e) (at0 bbox)) bboxWidth) (getWidth img);
          y1 = js_times (js_div (js_sub (at3 e) (at1 bbox)) bboxHeight) (getHeight img);
          y2 = js_times (js_div (js_sub (at1 e) (at1 bbox)) bboxHeight) (getHeight img)
      in [Math_round x2, Math_round (js_minus H y1), Math_round x1, Math_round (js_minus H y2)])"

section \<open>Example inputs\<close>

text \<open>
  A small image of 4 by 2 pixels over the box from (0, 0) to (8, 4), with an 8-bit unsigned
  first sample and a 32-bit float second sample, a tile source with URLs in the manner
  of \<^verbatim>\<open>{z}/{y}/{x}.tif\<close>, and textures built on them. The theorems are applied to them.
\<close>

definition exampleImage :: geoTIFFImage where
  "exampleImage =
     \<lparr>getWidth = 4, getHeight = 2, getBoundingBox = (0, 0, 8, 4), getSamplesPerPixel = 2,
      getFileDirectory = \<lparr>BitsPerSample = Some [8, 32], SampleFormat = Some [1, 3]\<rparr>,
      readRasters = (\<lambda>opts. Fulfilled [Uint8Array (replicate (width opts * height opts) 7)])\<rparr>"

definition exampleXyz :: tileImage where
  "exampleXyz =
     \<lparr>getTileCoordForTileUrlFunction = (\<lambda>c. c),
      tileUrlFunction = (\<lambda>c. case c of (z, x, y) \<Rightarrow>
         ''tiles/'' @ decimal (nat z) @ ''/'' @ decimal (nat y) @ ''/'' @ decimal (nat x) @ ''.tif'')\<rparr>"

definition exampleFactory :: "string \<Rightarrow> nat \<Rightarrow> geoTIFF promise" where
  "exampleFactory url n = Fulfilled \<lparr>getImage = Fulfilled exampleImage\<rparr>"

definition exampleTiles :: "nat option \<Rightarrow> glTiledTextureGeoTiffTiles" where
  "exampleTiles sample =
     GlTiledTextureGeoTiffTiles_new exampleXyz exampleFactory (Some ''getTCR'') sample
       (Some (- 999)) None"

definition exampleTile :: "int \<Rightarrow> tiledDataParameters" where
  "exampleTile x = \<lparr>tileCoord = (0, x, 0), tileSize = (2, 1), tileExtent = (0, 0, 8, 4)\<rparr>"

definition exampleWith :: "nat \<Rightarrow> nat \<Rightarrow> geoTIFFImage" where
  "exampleWith bits format =
     exampleImage\<lparr>getSamplesPerPixel := 1,
                  getFileDirectory := \<lparr>BitsPerSample = Some [bits], SampleFormat = Some [format]\<rparr>\<rparr>"

definition exampleGeoTiff :: "geoTIFFImage \<Rightarrow> nat option \<Rightarrow> glTiledTextureGeoTiff" where
  "exampleGeoTiff img sample =
     GlTiledTextureGeoTiff_new (Loaded \<lparr>getImage = Fulfilled img\<rparr>) (Some ''getBand'') sample
       (Some (- 999)) None"

definition exampleOutside :: tiledDataParameters where
  "exampleOutside = \<lparr>tileCoord = (1, 9, 0), tileSize = (2, 1), tileExtent = (100, 0, 108, 4)\<rparr>"

text \<open>
  An image of 45 by 2 pixels over the box from (0, 0) to (10, 4), and a tile whose left
  edge falls on the pixel coordinate 31.5 in exact arithmetic and just below it in double
  arithmetic.
\<close>

definition exampleWide :: geoTIFFImage where
  "exampleWide = (exampleWith 8 1)\<lparr>getWidth := 45, getBoundingBox := (0, 0, 10, 4)\<rparr>"

definition exampleWideTile :: tiledDataParameters where
  "exampleWideTile = \<lparr>tileCoord = (2, 3, 0), tileSize = (2, 1), tileExtent = (7, 1, 10, 3)\<rparr>"

definition exampleCalls :: "nat \<Rightarrow> (glTiledTextureGeoTiffTiles \<times> tiledDataParameters) list" where
  "exampleCalls n = map (\<lambda>x. (exampleTiles (Some 0), exampleTile (int x))) [0..<n]"

definition exampleRevisit :: "(glTiledTextureGeoTiffTiles \<times> tiledDataParameters) list" where
  "exampleRevisit = exampleCalls 17 @ [(exampleTiles (Some 0), exampleTile 0)]"

section \<open>The cache and the factory\<close>

subsection \<open>One call, case by case\<close>

lemma map_of_append_new:
  "k \<notin> fst ` set es \<Longrightarrow> map_of (es @ [(k, v)]) k = Some v"
  by (induction es) auto

lemma map_of_filter_append:
  "map_of (filter (\<lambda>e. fst e \<noteq> k) es @ [(k, v)]) k = Some v"
  by (rule map_of_append_new) auto

lemma in_set_tl: "x \<in> set (tl xs) \<Longrightarrow> x \<in> set xs"
  by (cases xs) auto

lemma obtainInstance_hit:
  assumes "map_of (entries (geotiffCache w)) url = Some cached"
  shows "obtainInstance this url w =
           Inr (cached, w\<lparr>geotiffCache := (geotiffCache w)
                  \<lparr>entries := filter (\<lambda>e. fst e \<noteq> url) (entries (geotiffCache w)) @ [(url, cached)]\<rparr>\<rparr>)"
  using assms by (simp add: obtainInstance_def containsKey_def LRUCache_get_def)

lemma obtainInstance_miss_keep:
  assumes "map_of (entries (geotiffCache w)) url = None"
    and "\<not> (0 < highWaterMark (geotiffCache w) \<and>
            highWaterMark (geotiffCache w) \<le> length (entries (geotiffCache w)))"
  shows "obtainInstance this url w =
           Inr (factory_T this url (length (effects w)),
                w\<lparr>geotiffCache := (geotiffCache w)
                     \<lparr>entries := entries (geotiffCache w) @
                        [(url, factory_T this url (length (effects w)))]\<rparr>,
                  effects := effects w @ [FactoryInvoked url]\<rparr>)"
  using assms
  by (auto simp: obtainInstance_def containsKey_def LRUCache_set_def
       canExpireCache_def getCount_def Let_def)

lemma obtainInstance_miss_evict:
  assumes "map_of (entries (geotiffCache w)) url = None"
    and "0 < highWaterMark (geotiffCache w)"
    and "highWaterMark (geotiffCache w) \<le> length (entries (geotiffCache w))"
  shows "obtainInstance this url w =
           Inr (factory_T this url (length (effects w)),
                w\<lparr>geotiffCache := (geotiffCache w)
                     \<lparr>entries := tl (entries (geotiffCache w)) @
                        [(url, factory_T this url (length (effects w)))]\<rparr>,
                  effects := effects w @
                     [FactoryInvoked url, Evicted (fst (hd (entries (geotiffCache w))))]\<rparr>)"
  using assms
  by (cases "entries (geotiffCache w)")
     (auto simp: obtainInstance_def containsKey_def LRUCache_set_def LRUCache_pop_def
       canExpireCache_def getCount_def peekLastKey_def Let_def)

lemma map_fst_filter_key:
  "map fst (filter (\<lambda>e. fst e \<noteq> k) es) = removeAll k (map fst es)"
  by (induction es) auto

lemma map_of_Some_key: "map_of es k = Some v \<Longrightarrow> k \<in> set (map fst es)"
  by (induction es) (auto split: if_splits)

lemma map_of_None_key: "map_of es k = None \<longleftrightarrow> k \<notin> set (map fst es)"
  by (simp add: map_of_eq_None_iff)

lemma getTiledData_T_eq:
  "getTiledData_T this p w =
     (case map_of (entries (geotiffCache w)) (tileUrl this p) of
        Some cached \<Rightarrow>
          Inr (decodeTile this p cached,
               w\<lparr>geotiffCache := (geotiffCache w)
                   \<lparr>entries := filter (\<lambda>e. fst e \<noteq> tileUrl this p) (entries (geotiffCache w)) @
                       [(tileUrl this p, cached)]\<rparr>\<rparr>)
      | None \<Rightarrow>
          (if 0 < highWaterMark (geotiffCache w) \<and>
              highWaterMark (geotiffCache w) \<le> length (entries (geotiffCache w))
           then Inr (decodeTile this p (factory_T this (tileUrl this p) (length (effects w))),
                  w\<lparr>geotiffCache := (geotiffCache w)
                      \<lparr>entries := tl (entries (geotiffCache w)) @
                         [(tileUrl this p, factory_T this (tileUrl this p) (length (effects w)))]\<rparr>,
                    effects := effects w @
                      [FactoryInvoked (tileUrl this p),
                       Evicted (fst (hd (entries (geotiffCache w))))]\<rparr>)
           else Inr (decodeTile this p (factory_T this (tileUrl this p) (length (effects w))),
                  w\<lparr>geotiffCache := (geotiffCache w)
                      \<lparr>entries := entries (geotiffCache w) @
                         [(tileUrl this p, factory_T this (tileUrl this p) (length (effects w)))]\<rparr>,
                    effects := effects w @ [FactoryInvoked (tileUrl this p)]\<rparr>)))"
proof (cases "map_of (entries (geotiffCache w)) (tileUrl this p)")
  case None
  show ?thesis
  proof (cases "0 < highWaterMark (geotiffCache w) \<and>
                highWaterMark (geotiffCache w) \<le> length (entries (geotiffCache w))")
    case True
    then show ?thesis
      using None obtainInstance_miss_evict [OF None, of this]
      by (simp add: getTiledData_T_def)
  next
    case False
    then show ?thesis
      using None obtainInstance_miss_keep [OF None False, of this]
      by (auto simp: getTiledData_T_def)
  qed
next
  case (Some cached)
  then show ?thesis
    using obtainInstance_hit [OF Some, of this] by (simp add: getTiledData_T_def)
qed

lemma cacheKeys_step:
  assumes "getTiledData_T this p w = Inr (r, w')"
  shows "cacheKeys w' =
           (if tileUrl this p \<in> set (cacheKeys w)
            then removeAll (tileUrl this p) (cacheKeys w) @ [tileUrl this p]
            else if 0 < highWaterMark (geotiffCache w) \<and>
                    highWaterMark (geotiffCache w) \<le> length (cacheKeys w)
            then tl (cacheKeys w) @ [tileUrl this p]
            else cacheKeys w @ [tileUrl this p])"
    and "highWaterMark (geotiffCache w') = highWaterMark (geotiffCache w)"
proof -
  show "highWaterMark (geotiffCache w') = highWaterMark (geotiffCache w)"
    using assms unfolding getTiledData_T_eq
    by (auto split: option.splits if_splits)
  show "cacheKeys w' =
           (if tileUrl this p \<in> set (cacheKeys w)
            then removeAll (tileUrl this p) (cacheKeys w) @ [tileUrl this p]
            else if 0 < highWaterMark (geotiffCache w) \<and>
                    highWaterMark (geotiffCache w) \<le> length (cacheKeys w)
            then tl (cacheKeys w) @ [tileUrl this p]
            else cacheKeys w @ [tileUrl this p])"
  proof (cases "map_of (entries (geotiffCache w)) (tileUrl this p)")
    case None
    then have "tileUrl this p \<notin> set (cacheKeys w)"
      by (simp add: cacheKeys_def map_of_None_key)
    then show ?thesis
      using assms None unfolding getTiledData_T_eq
      by (auto simp: cacheKeys_def map_tl split: if_splits)
  next
    case (Some cached)
    then have "tileUrl this p \<in> set (cacheKeys w)"
      unfolding cacheKeys_def by (rule map_of_Some_key)
    then show ?thesis
      using assms Some unfolding getTiledData_T_eq
      by (auto simp: cacheKeys_def map_fst_filter_key)
  qed
qed

lemma getTiledData_T_total: "\<exists>r w'. getTiledData_T this p w = Inr (r, w')"
  unfolding getTiledData_T_eq by (simp split: option.splits)

subsection \<open>Facts about the example inputs\<close>

lemma exampleTile_url: "tileUrl (exampleTiles s) (exampleTile 3) = ''tiles/0/0/3.tif''"
  by (simp add: tileUrl_def exampleTiles_def exampleTile_def exampleXyz_def
      GlTiledTextureGeoTiffTiles_new_def decimal.simps)

lemma exampleTiles_factory: "factory_T (exampleTiles s) = exampleFactory"
  by (simp add: exampleTiles_def GlTiledTextureGeoTiffTiles_new_def)

lemma initialWorld_empty:
  "cacheKeys initialWorld = []" "effects initialWorld = []"
  "\<not> containsKey (geotiffCache initialWorld) url"
  by (simp_all add: cacheKeys_def initialWorld_def LRUCache_new_def containsKey_def)

subsection \<open>Claims about one call\<close>

text \<open>
  Claim C1. For every call of \<^verbatim>\<open>GlTiledTextureGeoTiffTiles.getTiledData\<close>: if the cache
  already contains the computed tile URL as a key, the cached promise is the one decoded,
  and no factory is invoked (the trace of effects does not change); if it does not, the
  factory is invoked exactly once, on that URL, its result is the promise decoded, and it
  is in the cache under that URL when the call returns.
\<close>

theorem getTiledData_cache_then_factory:
  "if containsKey (geotiffCache w) (tileUrl this p) then
     (\<exists>cached w'. map_of (entries (geotiffCache w)) (tileUrl this p) = Some cached \<and>
        getTiledData_T this p w = Inr (decodeTile this p cached, w') \<and>
        effects w' = effects w \<and>
        map_of (entries (geotiffCache w')) (tileUrl this p) = Some cached)
   else
     (\<exists>w' evicted.
        getTiledData_T this p w =
          Inr (decodeTile this p (factory_T this (tileUrl this p) (length (effects w))), w') \<and>
        effects w' = effects w @ FactoryInvoked (tileUrl this p) # map Evicted evicted \<and>
        map_of (entries (geotiffCache w')) (tileUrl this p) =
          Some (factory_T this (tileUrl this p) (length (effects w))))"
proof (cases "map_of (entries (geotiffCache w)) (tileUrl this p)")
  case None
  let ?url = "tileUrl this p"
  let ?fresh = "factory_T this ?url (length (effects w))"
  let ?es = "entries (geotiffCache w)"
  have notin: "?url \<notin> fst ` set ?es"
    using None by (simp add: map_of_eq_None_iff)
  have miss: "\<not> containsKey (geotiffCache w) ?url"
    using None by (simp add: containsKey_def)
  show ?thesis
  proof (cases "0 < highWaterMark (geotiffCache w) \<and> highWaterMark (geotiffCache w) \<le> length ?es")
    case True
    let ?w' = "w\<lparr>geotiffCache := (geotiffCache w)\<lparr>entries := tl ?es @ [(?url, ?fresh)]\<rparr>,
                  effects := effects w @ [FactoryInvoked ?url, Evicted (fst (hd ?es))]\<rparr>"
    from True have "?es \<noteq> []" by auto
    then have "?url \<notin> fst ` set (tl ?es)"
      using notin by (auto dest: in_set_tl)
    then have "map_of (tl ?es @ [(?url, ?fresh)]) ?url = Some ?fresh"
      by (rule map_of_append_new)
    then have stored: "map_of (entries (geotiffCache ?w')) ?url = Some ?fresh"
      by simp
    have "obtainInstance this ?url w = Inr (?fresh, ?w')"
      using None True by (intro obtainInstance_miss_evict) auto
    then have call: "getTiledData_T this p w = Inr (decodeTile this p ?fresh, ?w')"
      by (simp add: getTiledData_T_def)
    have trace: "effects ?w' = effects w @ FactoryInvoked ?url # map Evicted [fst (hd ?es)]"
      by simp
    from call trace stored
    have "\<exists>w' evicted. getTiledData_T this p w = Inr (decodeTile this p ?fresh, w') \<and>
            effects w' = effects w @ FactoryInvoked ?url # map Evicted evicted \<and>
            map_of (entries (geotiffCache w')) ?url = Some ?fresh"
      by blast
    with miss show ?thesis by simp
  next
    case False
    let ?w' = "w\<lparr>geotiffCache := (geotiffCache w)\<lparr>entries := ?es @ [(?url, ?fresh)]\<rparr>,
                  effects := effects w @ [FactoryInvoked ?url]\<rparr>"
    have "map_of (?es @ [(?url, ?fresh)]) ?url = Some ?fresh"
      using notin by (rule map_of_append_new)
    then have stored: "map_of (entries (geotiffCache ?w')) ?url = Some ?fresh"
      by simp
    have "obtainInstance this ?url w = Inr (?fresh, ?w')"
      using None False by (intro obtainInstance_miss_keep) auto
    then have call: "getTiledData_T this p w = Inr (decodeTile this p ?fresh, ?w')"
      by (simp add: getTiledData_T_def)
    have trace: "effects ?w' = effects w @ FactoryInvoked ?url # map Evicted []"
      by simp
    from call trace stored
    have "\<exists>w' evicted. getTiledData_T this p w = Inr (decodeTile this p ?fresh, w') \<and>
            effects w' = effects w @ FactoryInvoked ?url # map Evicted evicted \<and>
            map_of (entries (geotiffCache w')) ?url = Some ?fresh"
      by blast
    with miss show ?thesis by simp
  qed
next
  case (Some cached)
  let ?url = "tileUrl this p"
  let ?w' = "w\<lparr>geotiffCache := (geotiffCache w)
                \<lparr>entries := filter (\<lambda>e. fst e \<noteq> ?url) (entries (geotiffCache w)) @ [(?url, cached)]\<rparr>\<rparr>"
  have hit: "containsKey (geotiffCache w) ?url"
    using Some by (simp add: containsKey_def)
  have stored: "map_of (entries (geotiffCache ?w')) ?url = Some cached"
    using map_of_filter_append [of ?url "entries (geotiffCache w)" cached] by simp
  have "obtainInstance this ?url w = Inr (cached, ?w')"
    using Some by (rule obtainInstance_hit)
  then have call: "getTiledData_T this p w = Inr (decodeTile this p cached, ?w')"
    by (simp add: getTiledData_T_def)
  have trace: "effects ?w' = effects w"
    by simp
  from Some call trace stored
  have "\<exists>cached w'. map_of (entries (geotiffCache w)) ?url = Some cached \<and>
          getTiledData_T this p w = Inr (decodeTile this p cached, w') \<and>
          effects w' = effects w \<and>
          map_of (entries (geotiffCache w')) ?url = Some cached"
    by blast
  with hit show ?thesis by simp
qed

theorem getTiledData_cache_then_factory_witness:
  "\<not> containsKey (geotiffCache initialWorld) (tileUrl (exampleTiles (Some 0)) (exampleTile 3)) \<and>
   (\<exists>w1 evicted.
      getTiledData_T (exampleTiles (Some 0)) (exampleTile 3) initialWorld =
        Inr (decodeTile (exampleTiles (Some 0)) (exampleTile 3)
               (exampleFactory ''tiles/0/0/3.tif'' 0), w1) \<and>
      effects w1 = FactoryInvoked ''tiles/0/0/3.tif'' # map Evicted evicted \<and>
      map_of (entries (geotiffCache w1)) ''tiles/0/0/3.tif'' =
        Some (exampleFactory ''tiles/0/0/3.tif'' 0) \<and>
      containsKey (geotiffCache w1) (tileUrl (exampleTiles (Some 1)) (exampleTile 3)) \<and>
      (\<exists>w2. getTiledData_T (exampleTiles (Some 1)) (exampleTile 3) w1 =
               Inr (decodeTile (exampleTiles (Some 1)) (exampleTile 3)
                      (exampleFactory ''tiles/0/0/3.tif'' 0), w2) \<and>
            effects w2 = effects w1))"
proof -
  have miss: "\<not> containsKey (geotiffCache initialWorld)
                  (tileUrl (exampleTiles (Some 0)) (exampleTile 3))"
    by (rule initialWorld_empty)
  from getTiledData_cache_then_factory
    [where w = initialWorld and this = "exampleTiles (Some 0)" and p = "exampleTile 3"]
  obtain w1 evicted where first:
      "getTiledData_T (exampleTiles (Some 0)) (exampleTile 3) initialWorld =
         Inr (decodeTile (exampleTiles (Some 0)) (exampleTile 3)
                (exampleFactory ''tiles/0/0/3.tif'' 0), w1)"
    and trace: "effects w1 = FactoryInvoked ''tiles/0/0/3.tif'' # map Evicted evicted"
    and stored: "map_of (entries (geotiffCache w1)) ''tiles/0/0/3.tif'' =
         Some (exampleFactory ''tiles/0/0/3.tif'' 0)"
    by (auto simp: exampleTile_url exampleTiles_factory initialWorld_empty)
  have hit: "containsKey (geotiffCache w1) (tileUrl (exampleTiles (Some 1)) (exampleTile 3))"
    using stored by (simp add: containsKey_def exampleTile_url)
  from getTiledData_cache_then_factory
    [where w = w1 and this = "exampleTiles (Some 1)" and p = "exampleTile 3"] hit stored
  obtain w2 where second:
      "getTiledData_T (exampleTiles (Some 1)) (exampleTile 3) w1 =
         Inr (decodeTile (exampleTiles (Some 1)) (exampleTile 3)
                (exampleFactory ''tiles/0/0/3.tif'' 0), w2)"
    and same: "effects w2 = effects w1"
    by (auto simp: exampleTile_url)
  from miss first trace stored hit second same show ?thesis
    by blast
qed

text \<open>
  Claim C5. The URL that keys the cache and is given to the factory is exactly
  \<^verbatim>\<open>xyz.tileUrlFunction(xyz.getTileCoordForTileUrlFunction(tileCoord))\<close>: it decides between
  hit and miss, it is the most recently used key after the call, no other key is added,
  and on a miss it is the argument of the one factory call.
\<close>

theorem getTiledData_url:
  "\<exists>r w'. getTiledData_T this p w = Inr (r, w') \<and>
     cacheKeys w' \<noteq> [] \<and>
     last (cacheKeys w') =
       tileUrlFunction (xyz_T this) (getTileCoordForTileUrlFunction (xyz_T this) (tileCoord p)) \<and>
     set (cacheKeys w') \<subseteq>
       insert (tileUrlFunction (xyz_T this) (getTileCoordForTileUrlFunction (xyz_T this) (tileCoord p)))
         (set (cacheKeys w)) \<and>
     (if containsKey (geotiffCache w)
           (tileUrlFunction (xyz_T this) (getTileCoordForTileUrlFunction (xyz_T this) (tileCoord p)))
      then effects w' = effects w
      else (\<exists>evicted. effects w' = effects w @
              FactoryInvoked (tileUrlFunction (xyz_T this)
                (getTileCoordForTileUrlFunction (xyz_T this) (tileCoord p))) # map Evicted evicted) \<and>
           r = decodeTile this p (factory_T this
                (tileUrlFunction (xyz_T this) (getTileCoordForTileUrlFunction (xyz_T this) (tileCoord p)))
                (length (effects w))))"
proof -
  let ?url = "tileUrlFunction (xyz_T this) (getTileCoordForTileUrlFunction (xyz_T this) (tileCoord p))"
  have url: "tileUrl this p = ?url"
    by (simp add: tileUrl_def)
  obtain r w' where call: "getTiledData_T this p w = Inr (r, w')"
    using getTiledData_T_total by blast
  note keys = cacheKeys_step(1) [OF call, unfolded url]
  have k1: "cacheKeys w' \<noteq> []" and k2: "last (cacheKeys w') = ?url"
    unfolding keys by auto
  have k3: "set (cacheKeys w') \<subseteq> insert ?url (set (cacheKeys w))"
    unfolding keys by (auto dest: in_set_tl)
  have k4: "if containsKey (geotiffCache w) ?url then effects w' = effects w
      else (\<exists>evicted. effects w' = effects w @ FactoryInvoked ?url # map Evicted evicted) \<and>
           r = decodeTile this p (factory_T this ?url (length (effects w)))"
  proof (cases "map_of (entries (geotiffCache w)) (tileUrl this p)")
    case None
    then have miss: "\<not> containsKey (geotiffCache w) ?url"
      by (simp add: containsKey_def url)
    have fresh: "r = decodeTile this p (factory_T this ?url (length (effects w)))"
      using call None unfolding getTiledData_T_eq by (auto simp: url split: if_splits)
    have "effects w' = effects w @ FactoryInvoked ?url # map Evicted [] \<or>
          effects w' = effects w @ FactoryInvoked ?url #
            map Evicted [fst (hd (entries (geotiffCache w)))]"
      using call None unfolding getTiledData_T_eq by (auto simp: url split: if_splits)
    then have "\<exists>evicted. effects w' = effects w @ FactoryInvoked ?url # map Evicted evicted"
      by blast
    with miss fresh show ?thesis by simp
  next
    case (Some cached)
    then have hit: "containsKey (geotiffCache w) ?url"
      by (simp add: containsKey_def url)
    have "effects w' = effects w"
      using call Some unfolding getTiledData_T_eq by auto
    with hit show ?thesis by simp
  qed
  from call k1 k2 k3 k4 show ?thesis by blast
qed

theorem getTiledData_url_witness:
  "\<exists>r w' evicted.
     getTiledData_T (exampleTiles (Some 0)) (exampleTile 3) initialWorld = Inr (r, w') \<and>
     last (cacheKeys w') = ''tiles/0/0/3.tif'' \<and>
     set (cacheKeys w') \<subseteq> {''tiles/0/0/3.tif''} \<and>
     effects w' = FactoryInvoked ''tiles/0/0/3.tif'' # map Evicted evicted \<and>
     r = decodeTile (exampleTiles (Some 0)) (exampleTile 3) (exampleFactory ''tiles/0/0/3.tif'' 0)"
proof -
  have u: "tileUrlFunction (xyz_T (exampleTiles (Some 0)))
             (getTileCoordForTileUrlFunction (xyz_T (exampleTiles (Some 0))) (tileCoord (exampleTile 3)))
           = ''tiles/0/0/3.tif''"
    using exampleTile_url [of "Some 0"] by (simp add: tileUrl_def)
  show ?thesis
    using getTiledData_url
      [where w = initialWorld and this = "exampleTiles (Some 0)" and p = "exampleTile 3"]
    unfolding u by (auto simp: initialWorld_empty exampleTiles_factory)
qed

lemma imageOfCall_eq:
  "getTiledData_T this p w = Inr (r, w') \<Longrightarrow>
   \<exists>instance. r = decodeTile this p instance \<and> imageOfCall this p w = then_promise instance getImage"
  by (auto simp: getTiledData_T_def imageOfCall_def split: sum.splits)

text \<open>
  Claim C6. When the GeoTIFF and its image load and the decode succeeds,
  \<^verbatim>\<open>GlTiledTextureGeoTiffTiles.getTiledData\<close> calls \<^verbatim>\<open>readRasters\<close> once, with width
  \<^verbatim>\<open>tileSize[0]\<close>, height \<^verbatim>\<open>tileSize[1]\<close>, the samples \<^verbatim>\<open>[sample]\<close>, the configured fill value
  and pool (and no window or resampling method), and resolves to the first raster of the
  result: one typed array, for one sample, per request.
\<close>

theorem getTiledData_readRasters:
  assumes "imageOfCall this p w = Fulfilled img"
    and "readRasters img
           \<lparr>window = None, width = fst (tileSize p), height = snd (tileSize p),
            resampleMethod = None, samples = [sample_T this],
            fillValue = fillValue_T this, pool = pool_T this\<rparr> = Fulfilled rasters"
  shows "\<exists>r w'. getTiledData_T this p w = Inr (r, w') \<and>
           rasterReads r =
             [\<lparr>window = None, width = fst (tileSize p), height = snd (tileSize p),
               resampleMethod = None, samples = [sample_T this],
               fillValue = fillValue_T this, pool = pool_T this\<rparr>] \<and>
           returned r = Fulfilled (case rasters of [] \<Rightarrow> None | first # others \<Rightarrow> Some first)"
proof -
  obtain r w' where call: "getTiledData_T this p w = Inr (r, w')"
    using getTiledData_T_total by blast
  then obtain inst where r: "r = decodeTile this p inst"
    and image: "then_promise inst getImage = Fulfilled img"
    using imageOfCall_eq assms(1) by fastforce
  have first: "js_index rasters (Some 0) = (case rasters of [] \<Rightarrow> None | first # others \<Rightarrow> Some first)"
    by (cases rasters) simp_all
  have "rasterReads r =
             [\<lparr>window = None, width = fst (tileSize p), height = snd (tileSize p),
               resampleMethod = None, samples = [sample_T this],
               fillValue = fillValue_T this, pool = pool_T this\<rparr>]"
    and "returned r = Fulfilled (case rasters of [] \<Rightarrow> None | first # others \<Rightarrow> Some first)"
    using image assms(2) first by (simp_all add: r decodeTile_def Let_def)
  with call show ?thesis by blast
qed

lemma exampleTile_image:
  "imageOfCall (exampleTiles s) (exampleTile 3) initialWorld = Fulfilled exampleImage"
  by (simp add: imageOfCall_def exampleTile_url obtainInstance_def containsKey_def
      exampleTiles_factory exampleFactory_def LRUCache_set_def canExpireCache_def getCount_def
      initialWorld_def LRUCache_new_def Let_def)

theorem getTiledData_readRasters_witness:
  "\<exists>r w'. getTiledData_T (exampleTiles (Some 0)) (exampleTile 3) initialWorld = Inr (r, w') \<and>
     rasterReads r =
       [\<lparr>window = None, width = 2, height = 1, resampleMethod = None, samples = [Some 0],
         fillValue = Some (- 999), pool = None\<rparr>] \<and>
     returned r = Fulfilled (Some (Uint8Array [7, 7]))"
  using getTiledData_readRasters
    [where this = "exampleTiles (Some 0)" and p = "exampleTile 3" and w = initialWorld
       and img = exampleImage and rasters = "[Uint8Array [7, 7]]", OF exampleTile_image]
  by (simp add: exampleTiles_def GlTiledTextureGeoTiffTiles_new_def exampleTile_def
      exampleImage_def numeral_2_eq_2)

section \<open>Waiting for the first tile\<close>

lemma fetchFunctionDef_settles: "fetchFunctionDef n s u img \<noteq> Pending"
  by (simp add: fetchFunctionDef_def Let_def split: option.splits sum.splits)

lemma getFetchFunctionDef_T_Pending:
  "getFetchFunctionDef_T this u = Pending \<longleftrightarrow> \<not> isFulfilled (anyTile_T this) \<and> (\<forall>r. anyTile_T this \<noteq> Rejected r)"
  by (cases "anyTile_T this") (simp_all add: getFetchFunctionDef_T_def fetchFunctionDef_settles)

lemma decodeTile_frame:
  "xyz_T (thisAfter (decodeTile this p i)) = xyz_T this"
  "factory_T (thisAfter (decodeTile this p i)) = factory_T this"
  by (simp_all add: decodeTile_def resolveAnyTile_def Let_def split: promise.splits)

lemma decodeTile_anyTile:
  "anyTile_T (thisAfter (decodeTile this p i)) =
     (case anyTile_T this of
        Pending \<Rightarrow> (case then_promise i getImage of Fulfilled img \<Rightarrow> Fulfilled img
                     | Rejected r \<Rightarrow> Pending | Pending \<Rightarrow> Pending)
      | Fulfilled old \<Rightarrow> Fulfilled old
      | Rejected r \<Rightarrow> Rejected r)"
  by (simp add: decodeTile_def resolveAnyTile_def Let_def split: promise.splits)

lemma imageOfCall_cong:
  "xyz_T this' = xyz_T this \<Longrightarrow> factory_T this' = factory_T this \<Longrightarrow>
   imageOfCall this' p w = imageOfCall this p w"
  by (simp add: imageOfCall_def obtainInstance_def tileUrl_def)

lemma getTiledData_on_frame:
  "xyz_T (getTiledData_on this cs) = xyz_T this \<and>
   factory_T (getTiledData_on this cs) = factory_T this"
proof (induction cs arbitrary: this)
  case Nil
  show ?case by simp
next
  case (Cons c cs)
  show ?case
  proof (cases "getTiledData_T this (fst c) (snd c)")
    case (Inl e)
    then show ?thesis using Cons.IH [of this] by simp
  next
    case (Inr rw)
    obtain r w' where rw: "rw = (r, w')" by (cases rw)
    obtain i where "r = decodeTile this (fst c) i"
      using imageOfCall_eq Inr rw by blast
    then show ?thesis
      using Inr rw Cons.IH [of "thisAfter r"] by (simp add: decodeTile_frame)
  qed
qed

lemma getTiledData_on_anyTile:
  "\<forall>r. anyTile_T this \<noteq> Rejected r \<Longrightarrow>
   (\<forall>r. anyTile_T (getTiledData_on this cs) \<noteq> Rejected r) \<and>
   (isFulfilled (anyTile_T (getTiledData_on this cs)) \<longleftrightarrow>
      isFulfilled (anyTile_T this) \<or>
      (\<exists>c \<in> set cs. isFulfilled (imageOfCall this (fst c) (snd c))))"
proof (induction cs arbitrary: this)
  case Nil
  then show ?case by simp
next
  case (Cons c cs)
  show ?case
  proof (cases "getTiledData_T this (fst c) (snd c)")
    case (Inl e)
    then show ?thesis
      using getTiledData_T_total [of this "fst c" "snd c"] by simp
  next
    case (Inr rw)
    obtain r w' where rw: "rw = (r, w')" by (cases rw)
    obtain i where r: "r = decodeTile this (fst c) i"
      and image: "imageOfCall this (fst c) (snd c) = then_promise i getImage"
      using imageOfCall_eq Inr rw by blast
    have any: "anyTile_T (thisAfter r) =
      (case anyTile_T this of
        Pending \<Rightarrow> (case imageOfCall this (fst c) (snd c) of Fulfilled img \<Rightarrow> Fulfilled img
                     | Rejected r \<Rightarrow> Pending | Pending \<Rightarrow> Pending)
      | Fulfilled old \<Rightarrow> Fulfilled old
      | Rejected r \<Rightarrow> Rejected r)"
      unfolding r image by (rule decodeTile_anyTile)
    have noRej: "\<forall>e. anyTile_T (thisAfter r) \<noteq> Rejected e"
      using Cons.prems by (simp add: any split: promise.splits)
    have same: "\<And>p w. imageOfCall (thisAfter r) p w = imageOfCall this p w"
      by (rule imageOfCall_cong) (simp_all add: r decodeTile_frame)
    have step: "isFulfilled (anyTile_T (thisAfter r)) \<longleftrightarrow>
        isFulfilled (anyTile_T this) \<or> isFulfilled (imageOfCall this (fst c) (snd c))"
      using Cons.prems by (simp add: any split: promise.splits)
    show ?thesis
      using Inr rw Cons.IH [OF noRej] step by (simp add: same)
  qed
qed

text \<open>
  Claim C10. The promise returned by \<^verbatim>\<open>GlTiledTextureGeoTiffTiles.getFetchFunctionDef\<close>
  settles if and only if some \<^verbatim>\<open>getTiledData\<close> call on the instance had its GeoTIFF image
  loaded: with no call, or with calls whose image never loads, it stays pending for ever.
\<close>

theorem getFetchFunctionDef_waits_for_a_tile:
  "getFetchFunctionDef_T
     (getTiledData_on (GlTiledTextureGeoTiffTiles_new xyz factory name sample fill workers) calls) u
     \<noteq> Pending
   \<longleftrightarrow>
   (\<exists>c \<in> set calls.
      isFulfilled (imageOfCall (GlTiledTextureGeoTiffTiles_new xyz factory name sample fill workers)
        (fst c) (snd c)))"
proof -
  let ?new = "GlTiledTextureGeoTiffTiles_new xyz factory name sample fill workers"
  have pending: "anyTile_T ?new = Pending"
    by (simp add: GlTiledTextureGeoTiffTiles_new_def)
  then have "\<forall>r. anyTile_T ?new \<noteq> Rejected r"
    by simp
  from getTiledData_on_anyTile [OF this, of calls] pending
  show ?thesis
    by (simp add: getFetchFunctionDef_T_Pending)
qed

theorem getFetchFunctionDef_waits_for_a_tile_witness:
  "getFetchFunctionDef_T (getTiledData_on (exampleTiles (Some 0)) []) ''tex'' = Pending \<and>
   getFetchFunctionDef_T
     (getTiledData_on (exampleTiles (Some 0)) [(exampleTile 3, initialWorld)]) ''tex'' \<noteq> Pending"
  using getFetchFunctionDef_waits_for_a_tile
     [where xyz = exampleXyz and factory = exampleFactory and name = "Some ''getTCR''"
        and sample = "Some 0" and fill = "Some (- 999)" and workers = None and u = "''tex''"
        and calls = "[]"]
    getFetchFunctionDef_waits_for_a_tile
     [where xyz = exampleXyz and factory = exampleFactory and name = "Some ''getTCR''"
        and sample = "Some 0" and fill = "Some (- 999)" and workers = None and u = "''tex''"
        and calls = "[(exampleTile 3, initialWorld)]"]
    exampleTile_image [of "Some 0"]
  by (simp add: exampleTiles_def)

section \<open>The fetch function\<close>

lemma fetchBody_eq:
  "fetchBody bits format =
     (if bits = Some 8 \<and> (format = Some 1 \<or> format = Some 2)
      then Inr ''return texel.x * 256.;''
      else if bits = Some 16 \<and> (format = Some 1 \<or> format = Some 2)
      then Inr ''return texel.x * 256. + texel.a * 65536.0;''
      else Inl (notImplemented bits
             (if format = Some 1 then ''uint''
              else if format = Some 2 then ''int''
              else ''unknown uint/int/float'')))"
  by (simp add: fetchBody_def)

lemma fetchFunctionDef_eq:
  assumes "BitsPerSample (getFileDirectory img) = Some bps"
    and "SampleFormat (getFileDirectory img) = Some sf"
  shows "fetchFunctionDef name sample u img =
     (if js_index bps sample = Some 8 \<and> (js_index sf sample = Some 1 \<or> js_index sf sample = Some 2)
      then Fulfilled (glslFunction name u ''return texel.x * 256.;'')
      else if js_index bps sample = Some 16 \<and>
              (js_index sf sample = Some 1 \<or> js_index sf sample = Some 2)
      then Fulfilled (glslFunction name u ''return texel.x * 256. + texel.a * 65536.0;'')
      else Rejected (Message (notImplemented (js_index bps sample)
             (if js_index sf sample = Some 1 then ''uint''
              else if js_index sf sample = Some 2 then ''int''
              else ''unknown uint/int/float''))))"
  using assms by (simp add: fetchFunctionDef_def Let_def fetchBody_eq)

text \<open>What the constructor leaves in the fields once the image is there.\<close>

lemma GlTiledTextureGeoTiff_new_loaded:
  assumes "(case tiff of Promised q \<Rightarrow> then_promise q getImage | Loaded t \<Rightarrow> getImage t) = Fulfilled img"
    and "BitsPerSample (getFileDirectory img) = Some bps"
    and "SampleFormat (getFileDirectory img) = Some sf"
    and "case sample of None \<Rightarrow> True | Some s \<Rightarrow> s < getSamplesPerPixel img"
  shows "tiff_G (GlTiledTextureGeoTiff_new tiff name sample fill workers) =
     (if js_index bps sample = Some 8 \<and> js_index sf sample = Some 1 then Fulfilled img
      else if js_index bps sample = Some 16 \<and>
              (js_index sf sample = Some 1 \<or> js_index sf sample = Some 2) then Fulfilled img
      else Rejected (Message ''FIXME: could not create empty tile data for GeoTIFF sample format, or unsupported (32-bit) format''))"
    and "fetchFuncName_A (GlTiledTextureGeoTiff_new tiff name sample fill workers) = name"
    and "sample_G (GlTiledTextureGeoTiff_new tiff name sample fill workers) = sample"
    and "fillValue_G (GlTiledTextureGeoTiff_new tiff name sample fill workers) = fill"
    and "pool_G (GlTiledTextureGeoTiff_new tiff name sample fill workers) = workers"
    and "width_G (GlTiledTextureGeoTiff_new tiff name sample fill workers) = getWidth img"
    and "height_G (GlTiledTextureGeoTiff_new tiff name sample fill workers) = getHeight img"
    and "bbox_G (GlTiledTextureGeoTiff_new tiff name sample fill workers) = getBoundingBox img"
    and "bboxWidth_G (GlTiledTextureGeoTiff_new tiff name sample fill workers) =
           js_sub (at2 (getBoundingBox img)) (at0 (getBoundingBox img))"
    and "bboxHeight_G (GlTiledTextureGeoTiff_new tiff name sample fill workers) =
           js_sub (at3 (getBoundingBox img)) (at1 (getBoundingBox img))"
  using assms
  by (auto simp: GlTiledTextureGeoTiff_new_def loadImage_def Let_def split: option.splits)

lemma digit_not_space:
  assumes "d < 10"
  shows "''0123456789'' ! d \<noteq> CHR '' ''"
proof -
  from assms have "d = 0 \<or> d = 1 \<or> d = 2 \<or> d = 3 \<or> d = 4 \<or> d = 5 \<or> d = 6 \<or>
                   d = 7 \<or> d = 8 \<or> d = 9"
    by arith
  then show ?thesis
    by (elim disjE) simp_all
qed

lemma decimal_no_space: "CHR '' '' \<notin> set (decimal n)"
proof (induction n rule: decimal.induct)
  case (1 n)
  show ?case
  proof (cases "n < 10")
    case True
    then show ?thesis
      using digit_not_space [of n] by (subst decimal.simps) simp
  next
    case False
    then show ?thesis
      using 1 digit_not_space [of "n mod 10"] by (subst decimal.simps) simp
  qed
qed

lemma js_string_no_space: "CHR '' '' \<notin> set (js_string b)"
  by (cases b) (simp_all add: decimal_no_space)

lemma split_at_space:
  "CHR '' '' \<notin> set x \<Longrightarrow> CHR '' '' \<notin> set y \<Longrightarrow>
   x @ CHR '' '' # r = y @ CHR '' '' # s \<Longrightarrow> x = y \<and> r = s"
proof (induction x arbitrary: y)
  case Nil
  then show ?case by (cases y) auto
next
  case (Cons a x)
  then show ?case by (cases y) auto
qed

lemma notImplemented_kind:
  assumes "notImplemented b k = notImplemented b' k'"
  shows "k = k'"
proof -
  from assms have "js_string b @ CHR '' '' # (''bits, '' @ k @ '')'') =
                   js_string b' @ CHR '' '' # (''bits, '' @ k' @ '')'')"
    by (simp add: notImplemented_def)
  then have "''bits, '' @ k @ '')'' = ''bits, '' @ k' @ '')''"
    using split_at_space js_string_no_space by blast
  then show ?thesis by simp
qed

lemma fetchBody_never_float: "fetchBody bits format \<noteq> Inl (notImplemented b ''float'')"
  by (auto simp: fetchBody_eq dest!: notImplemented_kind)

lemma fetchFunctionDef_never_float:
  "fetchFunctionDef name sample u img \<noteq> Rejected (Message (notImplemented b ''float''))"
  using fetchBody_never_float
  by (auto simp: fetchFunctionDef_def Let_def split: option.splits sum.splits)

lemma exampleWith_simps:
  "BitsPerSample (getFileDirectory (exampleWith b f)) = Some [b]"
  "SampleFormat (getFileDirectory (exampleWith b f)) = Some [f]"
  "getSamplesPerPixel (exampleWith b f) = 1"
  "getWidth (exampleWith b f) = 4"
  "getHeight (exampleWith b f) = 2"
  "getBoundingBox (exampleWith b f) = (0, 0, 8, 4)"
  by (simp_all add: exampleWith_def exampleImage_def)

lemma exampleGeoTiff_tiff:
  "tiff_G (exampleGeoTiff (exampleWith b f) (Some 0)) =
     (if b = 8 \<and> f = 1 then Fulfilled (exampleWith b f)
      else if b = 16 \<and> (f = 1 \<or> f = 2) then Fulfilled (exampleWith b f)
      else Rejected (Message ''FIXME: could not create empty tile data for GeoTIFF sample format, or unsupported (32-bit) format''))"
  unfolding exampleGeoTiff_def
  using GlTiledTextureGeoTiff_new_loaded(1)
    [where tiff = "Loaded \<lparr>getImage = Fulfilled (exampleWith b f)\<rparr>"
       and img = "exampleWith b f" and bps = "[b]" and sf = "[f]" and sample = "Some 0"
       and name = "Some ''getBand''" and fill = "Some (- 999)" and workers = None]
  by (simp add: exampleWith_simps)

text \<open>
  Claim C3, as amended. Once a tile image has loaded,
  \<^verbatim>\<open>GlTiledTextureGeoTiffTiles.getFetchFunctionDef\<close> maps the sample's pair of bit depth and
  format to one of two bodies: \<^verbatim>\<open>return texel.x * 256.;\<close> for (8, uint) and (8, int),
  \<^verbatim>\<open>return texel.x * 256. + texel.a * 65536.0;\<close> for (16, uint) and (16, int), and it rejects
  every other pair with a "not yet implemented" message.
  \<^verbatim>\<open>GlTiledTextureGeoTiff.getFetchFunctionDef\<close> gives the same bodies for (8, uint),
  (16, uint) and (16, int); for a pair outside the four it rejects with the message of
  \<^verbatim>\<open>loadImage_\<close>, which has refused the image before. Both tags are present in the file
  directory, and the sample of the second class is within the image's samples.
\<close>

theorem getFetchFunctionDef_mapping:
  assumes "BitsPerSample (getFileDirectory img) = Some bps"
    and "SampleFormat (getFileDirectory img) = Some sf"
  shows
    "(anyTile_T this = Fulfilled img \<longrightarrow>
        getFetchFunctionDef_T this u =
          (if js_index bps (sample_T this) = Some 8 \<and>
              (js_index sf (sample_T this) = Some 1 \<or> js_index sf (sample_T this) = Some 2)
           then Fulfilled (glslFunction (fetchFuncName_A this) u ''return texel.x * 256.;'')
           else if js_index bps (sample_T this) = Some 16 \<and>
              (js_index sf (sample_T this) = Some 1 \<or> js_index sf (sample_T this) = Some 2)
           then Fulfilled (glslFunction (fetchFuncName_A this) u
                  ''return texel.x * 256. + texel.a * 65536.0;'')
           else Rejected (Message (notImplemented (js_index bps (sample_T this))
                  (if js_index sf (sample_T this) = Some 1 then ''uint''
                   else if js_index sf (sample_T this) = Some 2 then ''int''
                   else ''unknown uint/int/float''))))) \<and>
     ((case tiff of Promised q \<Rightarrow> then_promise q getImage | Loaded t \<Rightarrow> getImage t) = Fulfilled img \<and>
      (case sample of None \<Rightarrow> True | Some s \<Rightarrow> s < getSamplesPerPixel img) \<and>
      \<not> (js_index bps sample = Some 8 \<and> js_index sf sample = Some 2) \<longrightarrow>
        getFetchFunctionDef_G (GlTiledTextureGeoTiff_new tiff name sample fill workers) u =
          (if js_index bps sample = Some 8 \<and> js_index sf sample = Some 1
           then Fulfilled (glslFunction name u ''return texel.x * 256.;'')
           else if js_index bps sample = Some 16 \<and>
              (js_index sf sample = Some 1 \<or> js_index sf sample = Some 2)
           then Fulfilled (glslFunction name u ''return texel.x * 256. + texel.a * 65536.0;'')
           else Rejected (Message ''FIXME: could not create empty tile data for GeoTIFF sample format, or unsupported (32-bit) format'')))"
proof (intro conjI impI)
  assume "anyTile_T this = Fulfilled img"
  then show "getFetchFunctionDef_T this u =
          (if js_index bps (sample_T this) = Some 8 \<and>
              (js_index sf (sample_T this) = Some 1 \<or> js_index sf (sample_T this) = Some 2)
           then Fulfilled (glslFunction (fetchFuncName_A this) u ''return texel.x * 256.;'')
           else if js_index bps (sample_T this) = Some 16 \<and>
              (js_index sf (sample_T this) = Some 1 \<or> js_index sf (sample_T this) = Some 2)
           then Fulfilled (glslFunction (fetchFuncName_A this) u
                  ''return texel.x * 256. + texel.a * 65536.0;'')
           else Rejected (Message (notImplemented (js_index bps (sample_T this))
                  (if js_index sf (sample_T this) = Some 1 then ''uint''
                   else if js_index sf (sample_T this) = Some 2 then ''int''
                   else ''unknown uint/int/float''))))"
    by (simp only: getFetchFunctionDef_T_def then_promise.simps fetchFunctionDef_eq [OF assms])
next
  let ?new = "GlTiledTextureGeoTiff_new tiff name sample fill workers"
  assume a: "(case tiff of Promised q \<Rightarrow> then_promise q getImage | Loaded t \<Rightarrow> getImage t) = Fulfilled img \<and>
      (case sample of None \<Rightarrow> True | Some s \<Rightarrow> s < getSamplesPerPixel img) \<and>
      \<not> (js_index bps sample = Some 8 \<and> js_index sf sample = Some 2)"
  then have image: "(case tiff of Promised q \<Rightarrow> then_promise q getImage | Loaded t \<Rightarrow> getImage t) = Fulfilled img"
    and range: "case sample of None \<Rightarrow> True | Some s \<Rightarrow> s < getSamplesPerPixel img"
    by simp_all
  note new = GlTiledTextureGeoTiff_new_loaded [OF image assms range, of name fill workers]
  show "getFetchFunctionDef_G ?new u =
          (if js_index bps sample = Some 8 \<and> js_index sf sample = Some 1
           then Fulfilled (glslFunction name u ''return texel.x * 256.;'')
           else if js_index bps sample = Some 16 \<and>
              (js_index sf sample = Some 1 \<or> js_index sf sample = Some 2)
           then Fulfilled (glslFunction name u ''return texel.x * 256. + texel.a * 65536.0;'')
           else Rejected (Message ''FIXME: could not create empty tile data for GeoTIFF sample format, or unsupported (32-bit) format''))"
    unfolding getFetchFunctionDef_G_def new(1,2,3)
    using a by (auto simp: fetchFunctionDef_eq [OF assms])
qed

text \<open>
  The claim as first stated fails for \<^verbatim>\<open>GlTiledTextureGeoTiff\<close>: an 8-bit signed sample
  gives no body, and a 32-bit float sample is rejected with another message than
  "not yet implemented".
\<close>

theorem getFetchFunctionDef_mapping_counterexample:
  "getFetchFunctionDef_G (exampleGeoTiff (exampleWith 8 2) (Some 0)) ''tex'' =
     Rejected (Message ''FIXME: could not create empty tile data for GeoTIFF sample format, or unsupported (32-bit) format'') \<and>
   getFetchFunctionDef_G (exampleGeoTiff (exampleWith 8 2) (Some 0)) ''tex'' \<noteq>
     Fulfilled (glslFunction (Some ''getBand'') ''tex'' ''return texel.x * 256.;'') \<and>
   getFetchFunctionDef_G (exampleGeoTiff (exampleWith 32 3) (Some 0)) ''tex'' =
     Rejected (Message ''FIXME: could not create empty tile data for GeoTIFF sample format, or unsupported (32-bit) format'') \<and>
   getFetchFunctionDef_G (exampleGeoTiff (exampleWith 32 3) (Some 0)) ''tex'' \<noteq>
     Rejected (Message ''GeoTIFF pixel format not yet implemented (32 bits, unknown uint/int/float)'')"
  by (simp add: getFetchFunctionDef_G_def exampleGeoTiff_tiff)

theorem getFetchFunctionDef_mapping_witness:
  "getFetchFunctionDef_T (resolveAnyTile (exampleTiles (Some 0)) (exampleWith 8 2)) ''tex'' =
     Fulfilled ''float getTCR(vec2 texelCoords) {\<newline>        vec4 texel = texture2D(tex, texelCoords.st);\<newline>        return texel.x * 256.;\<newline>      }'' \<and>
   getFetchFunctionDef_T (resolveAnyTile (exampleTiles (Some 0)) (exampleWith 32 3)) ''tex'' =
     Rejected (Message ''GeoTIFF pixel format not yet implemented (32 bits, unknown uint/int/float)'') \<and>
   getFetchFunctionDef_G (exampleGeoTiff (exampleWith 16 2) (Some 0)) ''tex'' =
     Fulfilled ''float getBand(vec2 texelCoords) {\<newline>        vec4 texel = texture2D(tex, texelCoords.st);\<newline>        return texel.x * 256. + texel.a * 65536.0;\<newline>      }'' \<and>
   getFetchFunctionDef_G (exampleGeoTiff (exampleWith 32 3) (Some 0)) ''tex'' =
     Rejected (Message ''FIXME: could not create empty tile data for GeoTIFF sample format, or unsupported (32-bit) format'')"
proof -
  have t: "\<And>img. anyTile_T (resolveAnyTile (exampleTiles (Some 0)) img) = Fulfilled img"
    "\<And>img. sample_T (resolveAnyTile (exampleTiles (Some 0)) img) = Some 0"
    "\<And>img. fetchFuncName_A (resolveAnyTile (exampleTiles (Some 0)) img) = Some ''getTCR''"
    by (simp_all add: resolveAnyTile_def exampleTiles_def GlTiledTextureGeoTiffTiles_new_def)
  have i: "\<And>b f. js_index [b] (Some 0) = Some b"
    by simp
  have g: "glslFunction (Some ''getTCR'') ''tex'' ''return texel.x * 256.;'' =
      ''float getTCR(vec2 texelCoords) {\<newline>        vec4 texel = texture2D(tex, texelCoords.st);\<newline>        return texel.x * 256.;\<newline>      }''"
    "glslFunction (Some ''getBand'') ''tex'' ''return texel.x * 256. + texel.a * 65536.0;'' =
      ''float getBand(vec2 texelCoords) {\<newline>        vec4 texel = texture2D(tex, texelCoords.st);\<newline>        return texel.x * 256. + texel.a * 65536.0;\<newline>      }''"
    by (simp_all add: glslFunction_def)
  have m: "notImplemented (Some 32) ''unknown uint/int/float'' =
    ''GeoTIFF pixel format not yet implemented (32 bits, unknown uint/int/float)''"
    by (simp add: notImplemented_def decimal.simps)
  have c1: "getFetchFunctionDef_T (resolveAnyTile (exampleTiles (Some 0)) (exampleWith 8 2)) ''tex'' =
     Fulfilled (glslFunction (Some ''getTCR'') ''tex'' ''return texel.x * 256.;'')"
    using getFetchFunctionDef_mapping
      [where img = "exampleWith 8 2" and bps = "[8]" and sf = "[2]"
         and this = "resolveAnyTile (exampleTiles (Some 0)) (exampleWith 8 2)" and u = "''tex''",
       OF exampleWith_simps(1,2)]
    unfolding t i by simp
  have c2: "getFetchFunctionDef_T (resolveAnyTile (exampleTiles (Some 0)) (exampleWith 32 3)) ''tex'' =
     Rejected (Message (notImplemented (Some 32) ''unknown uint/int/float''))"
    using getFetchFunctionDef_mapping
      [where img = "exampleWith 32 3" and bps = "[32]" and sf = "[3]"
         and this = "resolveAnyTile (exampleTiles (Some 0)) (exampleWith 32 3)" and u = "''tex''",
       OF exampleWith_simps(1,2)]
    unfolding t i by simp
  have c3: "getFetchFunctionDef_G (exampleGeoTiff (exampleWith 16 2) (Some 0)) ''tex'' =
     Fulfilled (glslFunction (Some ''getBand'') ''tex'' ''return texel.x * 256. + texel.a * 65536.0;'')"
    using getFetchFunctionDef_mapping
      [where img = "exampleWith 16 2" and bps = "[16]" and sf = "[2]"
         and tiff = "Loaded \<lparr>getImage = Fulfilled (exampleWith 16 2)\<rparr>" and sample = "Some 0"
         and name = "Some ''getBand''" and fill = "Some (- 999)" and workers = None and u = "''tex''",
       OF exampleWith_simps(1,2)]
    unfolding i exampleGeoTiff_def by (simp add: exampleWith_simps)
  have c4: "getFetchFunctionDef_G (exampleGeoTiff (exampleWith 32 3) (Some 0)) ''tex'' =
     Rejected (Message ''FIXME: could not create empty tile data for GeoTIFF sample format, or unsupported (32-bit) format'')"
    using getFetchFunctionDef_mapping
      [where img = "exampleWith 32 3" and bps = "[32]" and sf = "[3]"
         and tiff = "Loaded \<lparr>getImage = Fulfilled (exampleWith 32 3)\<rparr>" and sample = "Some 0"
         and name = "Some ''getBand''" and fill = "Some (- 999)" and workers = None and u = "''tex''",
       OF exampleWith_simps(1,2)]
    unfolding i exampleGeoTiff_def by (simp add: exampleWith_simps)
  show ?thesis
    unfolding c1 c2 c3 c4 g m by simp
qed

text \<open>
  Claim C8, as amended. For a sample of format 3 (float),
  \<^verbatim>\<open>GlTiledTextureGeoTiffTiles.getFetchFunctionDef\<close> always rejects with the generic
  "unknown uint/int/float" message; \<^verbatim>\<open>GlTiledTextureGeoTiff.getFetchFunctionDef\<close> passes on
  the rejection of \<^verbatim>\<open>loadImage_\<close>, which has refused such an image. The float-specific
  message is never produced, whatever the input: its branch repeats the test
  \<^verbatim>\<open>format === 2\<close>.
\<close>

theorem float_branch_unreachable:
  "(anyTile_T this = Fulfilled img \<and>
    BitsPerSample (getFileDirectory img) = Some bps \<and>
    SampleFormat (getFileDirectory img) = Some sf \<and>
    js_index sf (sample_T this) = Some 3 \<longrightarrow>
      getFetchFunctionDef_T this u =
        Rejected (Message (notImplemented (js_index bps (sample_T this)) ''unknown uint/int/float''))) \<and>
   ((case tiff of Promised q \<Rightarrow> then_promise q getImage | Loaded t \<Rightarrow> getImage t) = Fulfilled img \<and>
    BitsPerSample (getFileDirectory img) = Some bps \<and>
    SampleFormat (getFileDirectory img) = Some sf \<and>
    (case sample of None \<Rightarrow> True | Some s \<Rightarrow> s < getSamplesPerPixel img) \<and>
    js_index sf sample = Some 3 \<longrightarrow>
      getFetchFunctionDef_G (GlTiledTextureGeoTiff_new tiff name sample fill workers) u =
        Rejected (Message ''FIXME: could not create empty tile data for GeoTIFF sample format, or unsupported (32-bit) format'')) \<and>
   fetchFunctionDef name sample u img \<noteq> Rejected (Message (notImplemented b ''float'')) \<and>
   getFetchFunctionDef_T
     (getTiledData_on (GlTiledTextureGeoTiffTiles_new xyz factory name sample fill workers) calls) u
     \<noteq> Rejected (Message (notImplemented b ''float''))"
proof (intro conjI impI)
  assume a: "anyTile_T this = Fulfilled img \<and>
    BitsPerSample (getFileDirectory img) = Some bps \<and>
    SampleFormat (getFileDirectory img) = Some sf \<and>
    js_index sf (sample_T this) = Some 3"
  then show "getFetchFunctionDef_T this u =
        Rejected (Message (notImplemented (js_index bps (sample_T this)) ''unknown uint/int/float''))"
    by (simp add: getFetchFunctionDef_T_def fetchFunctionDef_eq [of img bps sf])
next
  assume a: "(case tiff of Promised q \<Rightarrow> then_promise q getImage | Loaded t \<Rightarrow> getImage t) = Fulfilled img \<and>
    BitsPerSample (getFileDirectory img) = Some bps \<and>
    SampleFormat (getFileDirectory img) = Some sf \<and>
    (case sample of None \<Rightarrow> True | Some s \<Rightarrow> s < getSamplesPerPixel img) \<and>
    js_index sf sample = Some 3"
  then have "tiff_G (GlTiledTextureGeoTiff_new tiff name sample fill workers) =
     Rejected (Message ''FIXME: could not create empty tile data for GeoTIFF sample format, or unsupported (32-bit) format'')"
    using GlTiledTextureGeoTiff_new_loaded(1) [of tiff img bps sf sample name fill workers]
    by simp
  then show "getFetchFunctionDef_G (GlTiledTextureGeoTiff_new tiff name sample fill workers) u =
        Rejected (Message ''FIXME: could not create empty tile data for GeoTIFF sample format, or unsupported (32-bit) format'')"
    by (simp add: getFetchFunctionDef_G_def)
next
  show "fetchFunctionDef name sample u img \<noteq> Rejected (Message (notImplemented b ''float''))"
    by (rule fetchFunctionDef_never_float)
next
  let ?inst = "getTiledData_on (GlTiledTextureGeoTiffTiles_new xyz factory name sample fill workers) calls"
  have "\<forall>r. anyTile_T (GlTiledTextureGeoTiffTiles_new xyz factory name sample fill workers) \<noteq> Rejected r"
    by (simp add: GlTiledTextureGeoTiffTiles_new_def)
  then have "\<forall>r. anyTile_T ?inst \<noteq> Rejected r"
    using getTiledData_on_anyTile by blast
  then show "getFetchFunctionDef_T ?inst u \<noteq> Rejected (Message (notImplemented b ''float''))"
    using fetchFunctionDef_never_float
    by (cases "anyTile_T ?inst") (simp_all add: getFetchFunctionDef_T_def)
qed

text \<open>
  The claim as first stated fails for \<^verbatim>\<open>GlTiledTextureGeoTiff\<close>: the rejection message for
  a float sample is not the generic variant.
\<close>

theorem float_branch_unreachable_counterexample:
  "SampleFormat (getFileDirectory (exampleWith 64 3)) = Some [3] \<and>
   getFetchFunctionDef_G (exampleGeoTiff (exampleWith 64 3) (Some 0)) ''tex'' =
     Rejected (Message ''FIXME: could not create empty tile data for GeoTIFF sample format, or unsupported (32-bit) format'') \<and>
   getFetchFunctionDef_G (exampleGeoTiff (exampleWith 64 3) (Some 0)) ''tex'' \<noteq>
     Rejected (Message ''GeoTIFF pixel format not yet implemented (64 bits, unknown uint/int/float)'')"
  by (simp add: getFetchFunctionDef_G_def exampleGeoTiff_tiff exampleWith_simps)

theorem float_branch_unreachable_witness:
  "getFetchFunctionDef_T (resolveAnyTile (exampleTiles (Some 1)) exampleImage) ''tex'' =
     Rejected (Message ''GeoTIFF pixel format not yet implemented (32 bits, unknown uint/int/float)'') \<and>
   getFetchFunctionDef_G
     (GlTiledTextureGeoTiff_new (Loaded \<lparr>getImage = Fulfilled exampleImage\<rparr>) None (Some 1) None None)
     ''tex'' =
     Rejected (Message ''FIXME: could not create empty tile data for GeoTIFF sample format, or unsupported (32-bit) format'')"
proof -
  have t: "anyTile_T (resolveAnyTile (exampleTiles (Some 1)) exampleImage) = Fulfilled exampleImage"
    "sample_T (resolveAnyTile (exampleTiles (Some 1)) exampleImage) = Some 1"
    by (simp_all add: resolveAnyTile_def exampleTiles_def GlTiledTextureGeoTiffTiles_new_def)
  have d: "BitsPerSample (getFileDirectory exampleImage) = Some [8, 32]"
    "SampleFormat (getFileDirectory exampleImage) = Some [1, 3]"
    "getSamplesPerPixel exampleImage = 2"
    by (simp_all add: exampleImage_def)
  have m: "notImplemented (Some 32) ''unknown uint/int/float'' =
    ''GeoTIFF pixel format not yet implemented (32 bits, unknown uint/int/float)''"
    by (simp add: notImplemented_def decimal.simps)
  show ?thesis
    using float_branch_unreachable
      [where this = "resolveAnyTile (exampleTiles (Some 1)) exampleImage" and img = exampleImage
         and bps = "[8, 32]" and sf = "[1, 3]" and u = "''tex''"
         and tiff = "Loaded \<lparr>getImage = Fulfilled exampleImage\<rparr>" and sample = "Some 1"
         and name = None and fill = None and workers = None]
    unfolding t d by (simp add: m)
qed

section \<open>Rounding to the nearest double\<close>

text \<open>
  Rounding is monotone, keeps zero and one, and keeps every pixel count below \<open>2 ^ 53\<close>.
  These are the facts the pixel coordinates need.
\<close>

lemma roundHalfEven_of_int: "roundHalfEven (of_int n) = n"
  by (simp add: roundHalfEven_def)

lemma roundHalfEven_bounds: "\<lfloor>q\<rfloor> \<le> roundHalfEven q" "roundHalfEven q \<le> \<lfloor>q\<rfloor> + 1"
  by (simp_all add: roundHalfEven_def Let_def)

lemma roundHalfEven_mono:
  assumes "q \<le> q'"
  shows "roundHalfEven q \<le> roundHalfEven q'"
proof (cases "\<lfloor>q\<rfloor> = \<lfloor>q'\<rfloor>")
  case True
  then have "q - of_int \<lfloor>q\<rfloor> \<le> q' - of_int \<lfloor>q'\<rfloor>"
    using assms by simp
  then show ?thesis
    using True by (auto simp: roundHalfEven_def Let_def)
next
  case False
  then have "\<lfloor>q\<rfloor> < \<lfloor>q'\<rfloor>"
    using assms floor_mono [of q q'] by linarith
  then show ?thesis
    using roundHalfEven_bounds(2) [of q] roundHalfEven_bounds(1) [of q'] by linarith
qed

lemma of_int_less_bitlen: "0 < p \<Longrightarrow> (of_int p :: rat) < 2 powi bitlen p"
proof -
  assume "0 < p"
  then have "p < 2 ^ nat (bitlen p)"
    using bitlen_bounds by blast
  then have "(of_int p :: rat) < of_int (2 ^ nat (bitlen p))"
    by (simp only: of_int_less_iff)
  then show ?thesis
    using bitlen_nonneg [of p] by (simp add: power_int_nonneg_exp)
qed

lemma bitlen_le_of_int: "0 < p \<Longrightarrow> 2 powi (bitlen p - 1) \<le> (of_int p :: rat)"
proof -
  assume "0 < p"
  then have "2 ^ nat (bitlen p - 1) \<le> p" and "1 \<le> bitlen p"
    using bitlen_bounds [of p] bitlen_eq_zero_iff [of p] bitlen_nonneg [of p] by auto
  then have "(of_int (2 ^ nat (bitlen p - 1)) :: rat) \<le> of_int p"
    by (simp only: of_int_le_iff)
  then show ?thesis
    using \<open>1 \<le> bitlen p\<close> by (simp add: power_int_nonneg_exp)
qed

lemma binade_bounds:
  assumes "0 < x"
  shows "2 powi binade x \<le> x" and "x < 2 powi (binade x + 1)"
proof -
  obtain p q where pq: "quotient_of x = (p, q)"
    by (cases "quotient_of x")
  then have q: "0 < q" and x: "x = of_int p / of_int q"
    using quotient_of_denom_pos quotient_of_div by blast+
  then have p: "0 < p"
    using assms by (simp add: zero_less_divide_iff)
  let ?e = "bitlen p - bitlen q"
  have qr: "(0::rat) < of_int q" using q by simp
  have "x < 2 powi bitlen p / 2 powi (bitlen q - 1)"
    unfolding x
    using of_int_less_bitlen [OF p] bitlen_le_of_int [OF q] p
    by (intro frac_less) auto
  moreover have "2 powi bitlen p / 2 powi (bitlen q - 1) = (2::rat) powi (bitlen p - (bitlen q - 1))"
    by (rule power_int_diff [symmetric]) simp
  moreover have "bitlen p - (bitlen q - 1) = ?e + 1"
    by simp
  ultimately have up: "x < 2 powi (?e + 1)"
    by simp
  have "2 powi (bitlen p - 1) / 2 powi bitlen q < x"
    unfolding x
    using of_int_less_bitlen [OF q] bitlen_le_of_int [OF p] qr
    by (intro frac_less2) auto
  moreover have "2 powi (bitlen p - 1) / 2 powi bitlen q = (2::rat) powi (bitlen p - 1 - bitlen q)"
    by (rule power_int_diff [symmetric]) simp
  moreover have "bitlen p - 1 - bitlen q = ?e - 1"
    by simp
  ultimately have low: "2 powi (?e - 1) < x"
    by simp
  show "2 powi binade x \<le> x"
    using low by (auto simp: binade_def pq Let_def)
  show "x < 2 powi (binade x + 1)"
    using up by (auto simp: binade_def pq Let_def not_le)
qed

lemma binade_mono:
  assumes "0 < x" "x \<le> y"
  shows "binade x \<le> binade y"
proof (rule ccontr)
  assume "\<not> binade x \<le> binade y"
  then have "binade y + 1 \<le> binade x" by simp
  then have "(2::rat) powi (binade y + 1) \<le> 2 powi binade x"
    by (intro power_int_increasing) simp_all
  moreover have "y < 2 powi (binade y + 1)" "2 powi binade x \<le> x"
    using assms binade_bounds [of x] binade_bounds [of y] by simp_all
  ultimately show False using assms by linarith
qed

lemma exponent_mono:
  assumes "0 < x" "x \<le> y"
  shows "exponent x \<le> exponent y"
  using binade_mono [OF assms] by (simp add: exponent_def)

lemma below_next_binade:
  assumes "0 \<le> x"
  shows "x < 2 powi (exponent x + 1)"
proof (cases "x = 0")
  case True
  then show ?thesis by simp
next
  case False
  then have "x < 2 powi (binade x + 1)"
    using assms binade_bounds(2) [of x] by simp
  also have "\<dots> \<le> 2 powi (exponent x + 1)"
    by (intro power_int_increasing) (simp_all add: exponent_def)
  finally show ?thesis .
qed

lemma above_binade:
  assumes "0 < x" "- 1022 < exponent x"
  shows "2 powi exponent x \<le> x"
proof -
  from assms(2) have "exponent x = binade x"
    by (simp add: exponent_def max_def split: if_splits)
  then show ?thesis
    using binade_bounds(1) [OF assms(1)] by simp
qed

lemma ulp_pos: "0 < ulp x"
  by (simp add: ulp_def)

lemma ulp_times: "2 ^ 52 * ulp x = 2 powi exponent x" "2 ^ 53 * ulp x = 2 powi (exponent x + 1)"
proof -
  have "(2::rat) powi 52 * 2 powi (exponent x - 52) = 2 powi (52 + (exponent x - 52))"
    by (rule power_int_add [symmetric]) simp
  then show "2 ^ 52 * ulp x = 2 powi exponent x"
    by (simp add: ulp_def)
  have "(2::rat) powi 53 * 2 powi (exponent x - 52) = 2 powi (53 + (exponent x - 52))"
    by (rule power_int_add [symmetric]) simp
  moreover have "53 + (exponent x - 52) = exponent x + 1"
    by simp
  ultimately show "2 ^ 53 * ulp x = 2 powi (exponent x + 1)"
    by (simp add: ulp_def)
qed

lemma nearest_le_next_binade:
  assumes "0 \<le> x"
  shows "nearest x \<le> 2 powi (exponent x + 1)"
proof -
  have "x < 2 ^ 53 * ulp x"
    using below_next_binade [OF assms] ulp_times(2) [of x] by simp
  then have "x / ulp x \<le> of_int (2 ^ 53)"
    using ulp_pos [of x] by (simp add: pos_divide_le_eq)
  then have "roundHalfEven (x / ulp x) \<le> roundHalfEven (of_int (2 ^ 53))"
    by (rule roundHalfEven_mono)
  then have "roundHalfEven (x / ulp x) \<le> 2 ^ 53"
    by (simp only: roundHalfEven_of_int)
  then have "(of_int (roundHalfEven (x / ulp x)) :: rat) \<le> of_int (2 ^ 53)"
    by (simp only: of_int_le_iff)
  then have "of_int (roundHalfEven (x / ulp x)) * ulp x \<le> 2 ^ 53 * ulp x"
    using ulp_pos [of x] by (intro mult_right_mono) simp_all
  then show ?thesis
    using ulp_times(2) [of x] by (simp add: nearest_def)
qed

lemma nearest_ge_binade:
  assumes "0 < x" "- 1022 < exponent x"
  shows "2 powi exponent x \<le> nearest x"
proof -
  have "2 ^ 52 * ulp x \<le> x"
    using above_binade [OF assms] ulp_times(1) [of x] by simp
  then have "of_int (2 ^ 52) \<le> x / ulp x"
    using ulp_pos [of x] by (simp add: pos_le_divide_eq)
  then have "roundHalfEven (of_int (2 ^ 52)) \<le> roundHalfEven (x / ulp x)"
    by (rule roundHalfEven_mono)
  then have "2 ^ 52 \<le> roundHalfEven (x / ulp x)"
    by (simp only: roundHalfEven_of_int)
  then have "(of_int (2 ^ 52) :: rat) \<le> of_int (roundHalfEven (x / ulp x))"
    by (simp only: of_int_le_iff)
  then have "2 ^ 52 * ulp x \<le> of_int (roundHalfEven (x / ulp x)) * ulp x"
    using ulp_pos [of x] by (intro mult_right_mono) simp_all
  then show ?thesis
    using ulp_times(1) [of x] by (simp add: nearest_def)
qed

lemma nearest_zero: "nearest 0 = 0"
  by (simp add: nearest_def roundHalfEven_def)

lemma nearest_nonneg:
  assumes "0 \<le> x"
  shows "0 \<le> nearest x"
proof -
  have "0 \<le> x / ulp x"
    using assms ulp_pos [of x] by simp
  then have "0 \<le> \<lfloor>x / ulp x\<rfloor>"
    by simp
  then have "0 \<le> roundHalfEven (x / ulp x)"
    using roundHalfEven_bounds(1) [of "x / ulp x"] by linarith
  then show ?thesis
    using ulp_pos [of x] by (simp add: nearest_def)
qed

lemma nearest_mono:
  assumes "0 \<le> x" "x \<le> y"
  shows "nearest x \<le> nearest y"
proof (cases "x = 0")
  case True
  then show ?thesis
    using assms nearest_nonneg [of y] by (simp add: nearest_zero)
next
  case pos: False
  then have x: "0 < x" and y: "0 < y"
    using assms by simp_all
  show ?thesis
  proof (cases "exponent x = exponent y")
    case True
    then have u: "ulp x = ulp y"
      by (simp add: ulp_def)
    have "x / ulp y \<le> y / ulp y"
      using assms ulp_pos [of y] by (simp add: divide_right_mono)
    then have "roundHalfEven (x / ulp y) \<le> roundHalfEven (y / ulp y)"
      by (rule roundHalfEven_mono)
    then have "(of_int (roundHalfEven (x / ulp y)) :: rat) \<le> of_int (roundHalfEven (y / ulp y))"
      by (simp only: of_int_le_iff)
    then show ?thesis
      unfolding nearest_def u using ulp_pos [of y] by (intro mult_right_mono) simp_all
  next
    case False
    then have less: "exponent x < exponent y"
      using exponent_mono [OF x assms(2)] by simp
    have "- 1022 \<le> exponent x"
      by (simp add: exponent_def)
    then have ey: "- 1022 < exponent y"
      using less by simp
    have "nearest x \<le> 2 powi (exponent x + 1)"
      using assms(1) by (rule nearest_le_next_binade)
    also have "\<dots> \<le> 2 powi exponent y"
      using less by (intro power_int_increasing) simp_all
    also have "\<dots> \<le> nearest y"
      using y ey by (rule nearest_ge_binade)
    finally show ?thesis .
  qed
qed

lemma nearest_one: "nearest 1 = 1"
  by code_simp

lemma binade_zero: "binade 0 = - 2"
  by code_simp

lemma binade_one: "binade 1 = 0"
  by code_simp

lemma binade_finite:
  assumes "0 \<le> x" "x \<le> y" "binade y \<le> 1023"
  shows "binade x \<le> 1023"
proof (cases "x = 0")
  case True
  then show ?thesis by (simp add: binade_zero)
next
  case False
  then have "0 < x" using assms(1) by simp
  then show ?thesis
    using binade_mono [OF _ assms(2)] assms(3) by simp
qed

lemma toDouble_nonneg:
  assumes "0 \<le> x"
  shows "toDouble x = (if 1023 < binade (nearest x) then PosInf else Num (nearest x))"
  using assms by (simp add: toDouble_def toDouble_pos_def Let_def)

lemma isDouble_nonneg:
  assumes "0 \<le> y" "isDouble y"
  shows "nearest y = y" "binade y \<le> 1023"
proof -
  from assms(2) have "nearest y = y \<and> \<not> 1023 < binade (nearest y)"
    unfolding isDouble_def toDouble_nonneg [OF assms(1)] by (auto split: if_splits)
  then have n: "nearest y = y" and b: "\<not> 1023 < binade (nearest y)"
    by (rule conjunct1, rule conjunct2)
  show "nearest y = y" by (rule n)
  have "binade (nearest y) = binade y" using n by (rule arg_cong)
  with b show "binade y \<le> 1023" by linarith
qed

lemma toDouble_between:
  assumes "0 \<le> x" "x \<le> y" "isDouble y"
  shows "toDouble x = Num (nearest x)" "0 \<le> nearest x" "nearest x \<le> y"
proof -
  have y0: "0 \<le> y" using assms by simp
  note y = isDouble_nonneg [OF y0 assms(3)]
  show le: "nearest x \<le> y"
    using nearest_mono [OF assms(1,2)] y by simp
  show x0: "0 \<le> nearest x" by (rule nearest_nonneg [OF assms(1)])
  have "binade (nearest x) \<le> 1023"
    by (rule binade_finite [OF x0 le y(2)])
  then show "toDouble x = Num (nearest x)"
    unfolding toDouble_nonneg [OF assms(1)] by simp
qed

lemma isDouble_zero: "isDouble 0"
  by (simp add: isDouble_def toDouble_nonneg nearest_zero binade_zero)

lemma isDouble_one: "isDouble 1"
  by (simp add: isDouble_def toDouble_nonneg nearest_one binade_one)

lemma pixel_in_range:
  assumes "lo \<le> t" "t \<le> hi" "isDouble (of_nat n)"
  shows "\<not> js_less (js_times (js_div (js_sub t lo) (js_sub hi lo)) n) 0"
    and "\<not> js_greater (js_times (js_div (js_sub t lo) (js_sub hi lo)) n) (of_nat n)"
proof -
  let ?a = "nearest (t - lo)" and ?b = "nearest (hi - lo)"
  let ?v = "js_times (js_div (js_sub t lo) (js_sub hi lo)) n"
  have t0: "0 \<le> t - lo" and h0: "0 \<le> hi - lo" and th: "t - lo \<le> hi - lo"
    using assms by simp_all
  have a0: "0 \<le> ?a" by (rule nearest_nonneg [OF t0])
  have ab: "?a \<le> ?b" by (rule nearest_mono [OF t0 th])
  have zero: "toDouble 0 = Num 0"
    using isDouble_zero by (simp add: isDouble_def)
  have "\<not> js_less ?v 0 \<and> \<not> js_greater ?v (of_nat n)"
  proof (cases "1023 < binade ?b")
    case True
    then have b: "js_sub hi lo = PosInf"
      by (simp add: js_sub_def toDouble_nonneg [OF h0])
    have "js_sub t lo = PosInf \<or> js_sub t lo = Num ?a"
      by (simp add: js_sub_def toDouble_nonneg [OF t0])
    then show ?thesis
      by (auto simp: b zero)
  next
    case False
    then have b: "js_sub hi lo = Num ?b"
      by (simp add: js_sub_def toDouble_nonneg [OF h0])
    from False have "binade ?a \<le> 1023"
      by (intro binade_finite [OF a0 ab]) simp
    then have a: "js_sub t lo = Num ?a"
      by (simp add: js_sub_def toDouble_nonneg [OF t0])
    show ?thesis
    proof (cases "?b = 0")
      case True
      with a0 ab have "?a = 0" by simp
      then show ?thesis by (simp add: a b True)
    next
      case nz: False
      with a0 ab have bpos: "0 < ?b" by simp
      have q0: "0 \<le> ?a / ?b" using a0 bpos by simp
      have q1: "?a / ?b \<le> 1" using ab bpos by simp
      note q = toDouble_between [OF q0 q1 isDouble_one]
      let ?q = "nearest (?a / ?b)"
      have d: "js_div (js_sub t lo) (js_sub hi lo) = Num ?q"
        by (simp add: a b nz q(1))
      have r0: "0 \<le> ?q * of_nat n" using q(2) by simp
      have r1: "?q * of_nat n \<le> of_nat n"
        using mult_right_mono [OF q(3), of "of_nat n"] by simp
      note r = toDouble_between [OF r0 r1 assms(3)]
      show ?thesis
        unfolding d js_times.simps r(1) using r(2,3) by simp
    qed
  qed
  then show "\<not> js_less ?v 0" and "\<not> js_greater ?v (of_nat n)"
    by simp_all
qed

lemma binade_of_nat:
  assumes "0 < n" "n < 2 ^ 53"
  shows "0 \<le> binade (of_nat n)" "binade (of_nat n) < 53"
proof -
  let ?x = "of_nat n :: rat"
  have pos: "0 < ?x" and one: "1 \<le> ?x" using assms(1) by simp_all
  have lt: "?x < 2 powi 53"
  proof -
    have "?x < of_nat (2 ^ 53)" using assms(2) by (simp only: of_nat_less_iff)
    then show ?thesis by simp
  qed
  note b = binade_bounds [OF pos]
  show "binade ?x < 53"
  proof (rule ccontr)
    assume "\<not> binade ?x < 53"
    then have "(2::rat) powi 53 \<le> 2 powi binade ?x"
      by (intro power_int_increasing) simp_all
    then show False using b(1) lt by linarith
  qed
  show "0 \<le> binade ?x"
  proof (rule ccontr)
    assume "\<not> 0 \<le> binade ?x"
    then have "(2::rat) powi (binade ?x + 1) \<le> 2 powi 0"
      by (intro power_int_increasing) simp_all
    then show False using b(2) one by simp
  qed
qed

lemma nearest_of_nat:
  assumes "0 < n" "n < 2 ^ 53"
  shows "nearest (of_nat n) = of_nat n"
proof -
  let ?x = "of_nat n :: rat"
  note b = binade_of_nat [OF assms]
  define k where "k = nat (52 - binade ?x)"
  have e: "exponent ?x - 52 = - int k"
    using b by (simp add: exponent_def k_def)
  have u: "ulp ?x = 1 / 2 ^ k"
    unfolding ulp_def e by (simp add: power_int_minus field_simps)
  have "?x / ulp ?x = of_int (int n * 2 ^ k)"
    by (simp add: u)
  then have "roundHalfEven (?x / ulp ?x) = int n * 2 ^ k"
    by (simp only: roundHalfEven_of_int)
  then show ?thesis
    by (simp add: nearest_def u)
qed

lemma isDouble_of_nat:
  assumes "n < 2 ^ 53"
  shows "isDouble (of_nat n)"
proof (cases "n = 0")
  case True
  then show ?thesis by (simp add: isDouble_zero)
next
  case False
  then have n: "0 < n" by simp
  show ?thesis
    using binade_of_nat(2) [OF n assms]
    by (simp add: isDouble_def toDouble_nonneg nearest_of_nat [OF n assms])
qed

section \<open>The single GeoTIFF: pixel windows and empty tiles\<close>

lemma GlTiledTextureGeoTiff_new_fulfilled:
  assumes "tiff_G (GlTiledTextureGeoTiff_new tiff name sample fill workers) = Fulfilled img"
  shows "sample_G (GlTiledTextureGeoTiff_new tiff name sample fill workers) = sample"
    and "fillValue_G (GlTiledTextureGeoTiff_new tiff name sample fill workers) = fill"
    and "pool_G (GlTiledTextureGeoTiff_new tiff name sample fill workers) = workers"
    and "width_G (GlTiledTextureGeoTiff_new tiff name sample fill workers) = getWidth img"
    and "height_G (GlTiledTextureGeoTiff_new tiff name sample fill workers) = getHeight img"
    and "bbox_G (GlTiledTextureGeoTiff_new tiff name sample fill workers) = getBoundingBox img"
    and "bboxWidth_G (GlTiledTextureGeoTiff_new tiff name sample fill workers) =
           js_sub (at2 (getBoundingBox img)) (at0 (getBoundingBox img))"
    and "bboxHeight_G (GlTiledTextureGeoTiff_new tiff name sample fill workers) =
           js_sub (at3 (getBoundingBox img)) (at1 (getBoundingBox img))"
proof -
  let ?image = "case tiff of Promised q \<Rightarrow> then_promise q getImage | Loaded t \<Rightarrow> getImage t"
  have image: "?image = Fulfilled img"
    using assms
    by (cases ?image)
       (auto simp: GlTiledTextureGeoTiff_new_def loadImage_def Let_def
          split: option.splits if_splits)
  show "sample_G (GlTiledTextureGeoTiff_new tiff name sample fill workers) = sample"
    and "fillValue_G (GlTiledTextureGeoTiff_new tiff name sample fill workers) = fill"
    and "pool_G (GlTiledTextureGeoTiff_new tiff name sample fill workers) = workers"
    and "width_G (GlTiledTextureGeoTiff_new tiff name sample fill workers) = getWidth img"
    and "height_G (GlTiledTextureGeoTiff_new tiff name sample fill workers) = getHeight img"
    and "bbox_G (GlTiledTextureGeoTiff_new tiff name sample fill workers) = getBoundingBox img"
    and "bboxWidth_G (GlTiledTextureGeoTiff_new tiff name sample fill workers) =
           js_sub (at2 (getBoundingBox img)) (at0 (getBoundingBox img))"
    and "bboxHeight_G (GlTiledTextureGeoTiff_new tiff name sample fill workers) =
           js_sub (at3 (getBoundingBox img)) (at1 (getBoundingBox img))"
    using image
    by (auto simp: GlTiledTextureGeoTiff_new_def loadImage_def Let_def split: option.splits)
qed

lemma GlTiledTextureGeoTiff_new_emptyData:
  assumes "tiff_G (GlTiledTextureGeoTiff_new tiff name sample fill workers) = Fulfilled img"
    and "BitsPerSample (getFileDirectory img) = Some bps"
    and "SampleFormat (getFileDirectory img) = Some sf"
  shows "emptyData_G (GlTiledTextureGeoTiff_new tiff name sample fill workers) =
             (if js_index bps sample = Some 8 \<and> js_index sf sample = Some 1
              then Some (Uint8Array (replicate (getWidth img * getHeight img)
                     (word_of_int (js_to_integer fill))))
              else if js_index bps sample = Some 16 \<and> js_index sf sample = Some 1
              then Some (Uint16Array (replicate (getWidth img * getHeight img)
                     (word_of_int (js_to_integer fill))))
              else Some (Int16Array (replicate (getWidth img * getHeight img)
                     (word_of_int (js_to_integer fill)))))"
    and "js_index bps sample = Some 8 \<and> js_index sf sample = Some 1 \<or>
         js_index bps sample = Some 16 \<and> js_index sf sample = Some 1 \<or>
         js_index bps sample = Some 16 \<and> js_index sf sample = Some 2"
proof -
  let ?image = "case tiff of Promised q \<Rightarrow> then_promise q getImage | Loaded t \<Rightarrow> getImage t"
  have image: "?image = Fulfilled img"
    using assms(1)
    by (cases ?image)
       (auto simp: GlTiledTextureGeoTiff_new_def loadImage_def Let_def
          split: option.splits if_splits)
  have new: "GlTiledTextureGeoTiff_new tiff name sample fill workers =
     (case loadImage \<lparr>fetchFuncName_A = name, sample_G = sample, fillValue_G = fill,
                   pool_G = workers, tiff_G = Pending, width_G = 0, height_G = 0,
                   bbox_G = (0, 0, 0, 0), bboxWidth_G = Num 0, bboxHeight_G = Num 0,
                   emptyData_G = None\<rparr> img of (r, this') \<Rightarrow> this'\<lparr>tiff_G := r\<rparr>)"
    using image by (simp add: GlTiledTextureGeoTiff_new_def)
  show "js_index bps sample = Some 8 \<and> js_index sf sample = Some 1 \<or>
         js_index bps sample = Some 16 \<and> js_index sf sample = Some 1 \<or>
         js_index bps sample = Some 16 \<and> js_index sf sample = Some 2"
    using assms unfolding new
    by (simp add: loadImage_def Let_def split: if_splits)
  then show "emptyData_G (GlTiledTextureGeoTiff_new tiff name sample fill workers) =
             (if js_index bps sample = Some 8 \<and> js_index sf sample = Some 1
              then Some (Uint8Array (replicate (getWidth img * getHeight img)
                     (word_of_int (js_to_integer fill))))
              else if js_index bps sample = Some 16 \<and> js_index sf sample = Some 1
              then Some (Uint16Array (replicate (getWidth img * getHeight img)
                     (word_of_int (js_to_integer fill))))
              else Some (Int16Array (replicate (getWidth img * getHeight img)
                     (word_of_int (js_to_integer fill)))))"
    using assms unfolding new
    by (simp add: loadImage_def Let_def split: if_splits)
qed

lemma exampleGeoTiff_fields:
  "sample_G (exampleGeoTiff (exampleWith b f) s) = s"
  "fillValue_G (exampleGeoTiff (exampleWith b f) s) = Some (- 999)"
  "pool_G (exampleGeoTiff (exampleWith b f) s) = None"
  "width_G (exampleGeoTiff (exampleWith b f) s) = 4"
  "height_G (exampleGeoTiff (exampleWith b f) s) = 2"
  "bbox_G (exampleGeoTiff (exampleWith b f) s) = (0, 0, 8, 4)"
  "bboxWidth_G (exampleGeoTiff (exampleWith b f) s) = js_sub 8 0"
  "bboxHeight_G (exampleGeoTiff (exampleWith b f) s) = js_sub 4 0"
  by (auto simp: exampleGeoTiff_def GlTiledTextureGeoTiff_new_def loadImage_def Let_def
      exampleWith_simps split: option.splits)

text \<open>The left edge 100 over the box from 0 to 8, on 4 pixels: the pixel coordinate 50.\<close>

lemma exampleOutside_x2: "js_times (js_div (js_sub 100 0) (js_sub 8 0)) 4 = Num 50"
  by code_simp

lemma exampleOutside_outOfBounds:
  "outOfBounds (exampleGeoTiff (exampleWith b f) s) (tileExtent exampleOutside)"
  unfolding outOfBounds_def pixel_x1_def pixel_x2_def pixel_y1_def pixel_y2_def
    exampleGeoTiff_fields
  by (simp add: exampleOutside_def exampleOutside_x2)

lemma exampleWide_simps:
  "BitsPerSample (getFileDirectory exampleWide) = Some [8]"
  "SampleFormat (getFileDirectory exampleWide) = Some [1]"
  "getSamplesPerPixel exampleWide = 1"
  "getWidth exampleWide = 45"
  "getHeight exampleWide = 2"
  "getBoundingBox exampleWide = (0, 0, 10, 4)"
  "readRasters exampleWide =
     (\<lambda>opts. Fulfilled [Uint8Array (replicate (width opts * height opts) 7)])"
  by (simp_all add: exampleWide_def exampleWith_def exampleImage_def)

lemma exampleWide_tiff:
  "tiff_G (GlTiledTextureGeoTiff_new (Loaded \<lparr>getImage = Fulfilled exampleWide\<rparr>)
     (Some ''getBand'') (Some 0) (Some (- 999)) None) = Fulfilled exampleWide"
  using GlTiledTextureGeoTiff_new_loaded(1)
    [where tiff = "Loaded \<lparr>getImage = Fulfilled exampleWide\<rparr>"
       and img = exampleWide and bps = "[8]" and sf = "[1]" and sample = "Some 0"
       and name = "Some ''getBand''" and fill = "Some (- 999)" and workers = None]
  by (simp add: exampleWide_simps)

text \<open>
  The quotient \<^verbatim>\<open>7 / 10\<close> is rounded down to a double, and its product with 45 again: the
  left edge of the window is 31, where exact arithmetic gives 31.5 and so 32.
\<close>

lemma exampleWide_x2:
  "js_times (js_div (js_sub 7 0) (js_sub 10 0)) 45 = Num (8866461766385663 / 281474976710656)"
  by code_simp

text \<open>
  A left edge one step of the doubles beyond the right edge 180 of a box from -180: the
  difference rounds to 360, the pixel coordinate is the width 4, and the test
  \<^verbatim>\<open>x2 > this.width_\<close> is false, where exact arithmetic makes it true.
\<close>

lemma edge_rounds_into_bounds:
  "isDouble (180 + 1 / 2 ^ 45) \<and>
   js_times (js_div (js_sub (180 + 1 / 2 ^ 45) (- 180)) (js_sub 180 (- 180))) 4 = Num 4"
  by code_simp

lemma exampleWide_window:
  "spec_window exampleWide (7, 1, 10, 3) = [Num 31, Num 1, Num 45, Num 2]"
  unfolding spec_window_def exampleWide_simps Let_def
  by code_simp

text \<open>
  Claim C4. In \<^verbatim>\<open>GlTiledTextureGeoTiff.getTiledData\<close>, when the tile extent lies inside the
  image bounding box, \<^verbatim>\<open>readRasters\<close> is called once and the pixel window passed to it is
  \<^verbatim>\<open>[round(x2), round(H - y1), round(x1), round(H - y2)]\<close>, computed from the image's width,
  height and bounding box as the claim says, every operation being the one on doubles.
  The width and the height of the image are JavaScript numbers, so doubles.
\<close>

theorem getTiledData_pixel_window:
  assumes "tiff_G (GlTiledTextureGeoTiff_new tiff name sample fill workers) = Fulfilled img"
    and "isDouble (of_nat (getWidth img))"
    and "isDouble (of_nat (getHeight img))"
    and "at0 (getBoundingBox img) \<le> at0 (tileExtent p)"
    and "at2 (tileExtent p) \<le> at2 (getBoundingBox img)"
    and "at1 (getBoundingBox img) \<le> at1 (tileExtent p)"
    and "at3 (tileExtent p) \<le> at3 (getBoundingBox img)"
    and "at0 (tileExtent p) \<le> at2 (tileExtent p)"
    and "at1 (tileExtent p) \<le> at3 (tileExtent p)"
  shows "getTiledData_G (GlTiledTextureGeoTiff_new tiff name sample fill workers) p =
           (then_promise
              (readRasters img
                 \<lparr>window = Some (spec_window img (tileExtent p)),
                  width = fst (tileSize p), height = snd (tileSize p),
                  resampleMethod = Some ''nearest'', samples = [sample],
                  fillValue = fill, pool = workers\<rparr>)
              (\<lambda>rasters. Fulfilled (js_index rasters (Some 0))),
            [\<lparr>window = Some (spec_window img (tileExtent p)),
              width = fst (tileSize p), height = snd (tileSize p),
              resampleMethod = Some ''nearest'', samples = [sample],
              fillValue = fill, pool = workers\<rparr>])"
proof -
  let ?new = "GlTiledTextureGeoTiff_new tiff name sample fill workers"
  note f = GlTiledTextureGeoTiff_new_fulfilled [OF assms(1)]
  let ?b = "getBoundingBox img" and ?e = "tileExtent p"
  note w = assms(2) and h = assms(3)
  have x: "at0 ?b \<le> at2 ?e" "at0 ?e \<le> at2 ?b"
    and y: "at1 ?b \<le> at3 ?e" "at1 ?e \<le> at3 ?b"
    using assms(4-9) by linarith+
  have inBounds: "\<not> outOfBounds ?new ?e"
    unfolding outOfBounds_def pixel_x1_def pixel_x2_def pixel_y1_def pixel_y2_def f
    using pixel_in_range(1) [OF x(1) assms(5) w] pixel_in_range(2) [OF assms(4) x(2) w]
      pixel_in_range(1) [OF y(1) assms(7) h] pixel_in_range(2) [OF assms(6) y(2) h]
    by simp
  have win: "map Math_round
       [pixel_x2 ?new ?e, js_minus (height_G ?new) (pixel_y1 ?new ?e),
        pixel_x1 ?new ?e, js_minus (height_G ?new) (pixel_y2 ?new ?e)] =
       spec_window img ?e"
    unfolding pixel_x1_def pixel_x2_def pixel_y1_def pixel_y2_def f spec_window_def
    by (simp add: Let_def)
  show ?thesis
    unfolding getTiledData_G_def assms(1) promise.case Let_def win
    using inBounds by (simp add: f)
qed

theorem getTiledData_pixel_window_witness:
  "getTiledData_G (exampleGeoTiff exampleWide (Some 0)) exampleWideTile =
     (Fulfilled (Some (Uint8Array [7, 7])),
      [\<lparr>window = Some [Num 31, Num 1, Num 45, Num 2], width = 2, height = 1,
        resampleMethod = Some ''nearest'', samples = [Some 0], fillValue = Some (- 999),
        pool = None\<rparr>])"
proof -
  have d: "isDouble (of_nat (getWidth exampleWide))" "isDouble (of_nat (getHeight exampleWide))"
    unfolding exampleWide_simps by (rule isDouble_of_nat, simp)+
  show ?thesis
    using getTiledData_pixel_window [OF exampleWide_tiff d, of exampleWideTile,
        folded exampleGeoTiff_def]
    by (simp add: exampleWide_simps exampleWideTile_def exampleWide_window numeral_2_eq_2)
qed

text \<open>
  Claim C9. In \<^verbatim>\<open>GlTiledTextureGeoTiff.getTiledData\<close>, a tile outside the image is to
  resolve, without a \<^verbatim>\<open>readRasters\<close> call, to the empty typed array in which every element
  equals the configured fill value. The code breaks this at the fill value -999 of its own
  documentation: for an 8-bit unsigned sample \<^verbatim>\<open>loadImage_\<close> fills a \<^verbatim>\<open>Uint8Array\<close>, which
  keeps the low eight bits, and every element of the tile returned is 25.
\<close>

theorem getTiledData_out_of_bounds_fill:
  "fillValue_G (exampleGeoTiff (exampleWith 8 1) (Some 0)) = Some (- 999) \<and>
   outOfBounds (exampleGeoTiff (exampleWith 8 1) (Some 0)) (tileExtent exampleOutside) \<and>
   getTiledData_G (exampleGeoTiff (exampleWith 8 1) (Some 0)) exampleOutside =
     (Fulfilled (Some (Uint8Array [25, 25, 25, 25, 25, 25, 25, 25])), []) \<and>
   elementsOf (Uint8Array [25, 25, 25, 25, 25, 25, 25, 25]) = [25, 25, 25, 25, 25, 25, 25, 25]"
proof -
  have "(- 999 :: 8 word) = 25"
    by simp
  then have rep: "replicate 8 (- 999 :: 8 word) = [25, 25, 25, 25, 25, 25, 25, 25]"
    by (simp add: eval_nat_numeral)
  have e: "\<And>f. f = 1 \<Longrightarrow> emptyData_G (exampleGeoTiff (exampleWith 8 f) (Some 0)) =
      Some (Uint8Array [25, 25, 25, 25, 25, 25, 25, 25])"
    by (simp add: exampleGeoTiff_def GlTiledTextureGeoTiff_new_def loadImage_def Let_def
        exampleWith_simps rep)
  have t: "\<And>f. f = 1 \<Longrightarrow>
      tiff_G (exampleGeoTiff (exampleWith 8 f) (Some 0)) = Fulfilled (exampleWith 8 f)"
    by (simp add: exampleGeoTiff_tiff)
  have "getTiledData_G (exampleGeoTiff (exampleWith 8 1) (Some 0)) exampleOutside =
     (Fulfilled (emptyData_G (exampleGeoTiff (exampleWith 8 1) (Some 0))), [])"
    using exampleOutside_outOfBounds
    by (simp add: getTiledData_G_def t)
  then show ?thesis
    using exampleOutside_outOfBounds
    by (simp add: exampleGeoTiff_fields e)
qed

section \<open>Sequences of calls: capacity, eviction and the factory\<close>

lemma remdups_snoc: "remdups (us @ [u]) = removeAll u (remdups us) @ [u]"
  by (induction us) auto

lemma lru_step:
  assumes "distinct R" and "0 < n"
  shows "drop (length (removeAll u R @ [u]) - n) (removeAll u R @ [u]) =
           (if u \<in> set (drop (length R - n) R)
            then removeAll u (drop (length R - n) R) @ [u]
            else if n \<le> length (drop (length R - n) R)
            then tl (drop (length R - n) R) @ [u]
            else drop (length R - n) R @ [u])"
proof -
  let ?A = "take (length R - n) R" and ?K = "drop (length R - n) R"
  have R: "R = ?A @ ?K" by simp
  have lenA: "length ?A = length R - n" by simp
  have dA: "set ?A \<inter> set ?K = {}"
    using assms(1) by (metis R distinct_append)
  have dK: "distinct ?K"
    using assms(1) by simp
  show ?thesis
  proof (cases "u \<in> set ?K")
    case True
    then have "u \<notin> set ?A"
      using dA by auto
    then have "removeAll u R = ?A @ removeAll u ?K"
      by (subst R) (simp del: append_take_drop_id)
    moreover have "length (removeAll u ?K) = length ?K - 1"
      using True dK by (simp add: distinct_remove1_removeAll [symmetric] length_remove1)
    moreover have "0 < length ?K"
      using True by (cases ?K) auto
    ultimately show ?thesis
      using True by simp
  next
    case False
    show ?thesis
    proof (cases "n \<le> length ?K")
      case True
      then have lenK: "length ?K = n" by simp
      then have "?K \<noteq> []" using assms(2) by auto
      have "removeAll u R = removeAll u ?A @ ?K"
        using False by (subst R) (simp del: append_take_drop_id)
      then have "drop (length (removeAll u R @ [u]) - n) (removeAll u R @ [u]) =
                 drop (Suc (length (removeAll u ?A))) (removeAll u ?A @ ?K @ [u])"
        using lenK by simp
      also have "\<dots> = drop 1 (?K @ [u])"
        by simp
      also have "\<dots> = tl ?K @ [u]"
        using \<open>?K \<noteq> []\<close> by (cases ?K) simp_all
      finally show ?thesis
        using False True by simp
    next
      case small: False
      then have "length R < n" by simp
      then have "?K = R" by simp
      then have "u \<notin> set R" using False by simp
      then show ?thesis
        using False small \<open>length R < n\<close> by simp
    qed
  qed
qed

lemma getTiledData_calls_snoc:
  "getTiledData_calls (cs @ [c]) w =
     (case getTiledData_calls cs w of
        Inl e \<Rightarrow> Inl e
      | Inr w1 \<Rightarrow>
          (case getTiledData_T (fst c) (snd c) w1 of
             Inl e \<Rightarrow> Inl e
           | Inr (r, w') \<Rightarrow> Inr w'))"
  by (induction cs arbitrary: w) (auto split: sum.splits)

lemma effects_step:
  assumes "getTiledData_T this p w = Inr (r, w')"
  shows "effects w' =
           (if tileUrl this p \<in> set (cacheKeys w) then effects w
            else if 0 < highWaterMark (geotiffCache w) \<and>
                    highWaterMark (geotiffCache w) \<le> length (cacheKeys w)
            then effects w @ [FactoryInvoked (tileUrl this p), Evicted (hd (cacheKeys w))]
            else effects w @ [FactoryInvoked (tileUrl this p)])"
proof (cases "map_of (entries (geotiffCache w)) (tileUrl this p)")
  case None
  then have miss: "tileUrl this p \<notin> set (cacheKeys w)"
    by (simp add: cacheKeys_def map_of_None_key)
  show ?thesis
  proof (cases "0 < highWaterMark (geotiffCache w) \<and>
                highWaterMark (geotiffCache w) \<le> length (cacheKeys w)")
    case True
    then have "entries (geotiffCache w) \<noteq> []"
      by (auto simp: cacheKeys_def)
    then have "fst (hd (entries (geotiffCache w))) = hd (cacheKeys w)"
      by (simp add: cacheKeys_def hd_map)
    then show ?thesis
      using assms None miss True unfolding getTiledData_T_eq
      by (auto simp: cacheKeys_def)
  next
    case False
    then show ?thesis
      using assms None miss unfolding getTiledData_T_eq
      by (auto simp: cacheKeys_def)
  qed
next
  case (Some cached)
  then have "tileUrl this p \<in> set (cacheKeys w)"
    unfolding cacheKeys_def by (rule map_of_Some_key)
  then show ?thesis
    using assms Some unfolding getTiledData_T_eq by auto
qed

lemma reachable_keys:
  "\<exists>w. getTiledData_calls cs initialWorld = Inr w \<and>
        highWaterMark (geotiffCache w) = 16 \<and>
        cacheKeys w = spec_lru_keys 16 (requestedUrls cs)"
proof (induction cs rule: rev_induct)
  case Nil
  show ?case
    by (simp add: initialWorld_def LRUCache_new_def cacheKeys_def spec_lru_keys_def
        requestedUrls_def)
next
  case (snoc c cs)
  then obtain w where run: "getTiledData_calls cs initialWorld = Inr w"
    and hw: "highWaterMark (geotiffCache w) = 16"
    and keys: "cacheKeys w = spec_lru_keys 16 (requestedUrls cs)"
    by blast
  obtain r w' where call: "getTiledData_T (fst c) (snd c) w = Inr (r, w')"
    using getTiledData_T_total by blast
  let ?u = "tileUrl (fst c) (snd c)" and ?R = "remdups (requestedUrls cs)"
  have K: "cacheKeys w = drop (length ?R - 16) ?R"
    by (simp add: keys spec_lru_keys_def Let_def)
  have "cacheKeys w' =
          (if ?u \<in> set (cacheKeys w) then removeAll ?u (cacheKeys w) @ [?u]
           else if 16 \<le> length (cacheKeys w) then tl (cacheKeys w) @ [?u]
           else cacheKeys w @ [?u])"
    using cacheKeys_step(1) [OF call] by (simp add: hw)
  also have "\<dots> = drop (length (removeAll ?u ?R @ [?u]) - 16) (removeAll ?u ?R @ [?u])"
    unfolding K by (rule lru_step [symmetric]) simp_all
  also have "\<dots> = spec_lru_keys 16 (requestedUrls (cs @ [c]))"
    by (simp add: spec_lru_keys_def requestedUrls_def remdups_snoc Let_def)
  finally have "cacheKeys w' = spec_lru_keys 16 (requestedUrls (cs @ [c]))" .
  moreover have "highWaterMark (geotiffCache w') = 16"
    using cacheKeys_step(2) [OF call] hw by simp
  moreover have "getTiledData_calls (cs @ [c]) initialWorld = Inr w'"
    by (simp add: getTiledData_calls_snoc run call)
  ultimately show ?case by blast
qed

lemma spec_lru_keys_bound:
  "length (spec_lru_keys n us) \<le> n" "distinct (spec_lru_keys n us)"
  "set (spec_lru_keys n us) \<subseteq> set us"
  by (auto simp: spec_lru_keys_def Let_def dest: in_set_dropD)

text \<open>
  Claim C2. The module-level cache has capacity 16. After any sequence of
  \<^verbatim>\<open>getTiledData\<close> calls, from any instances, it holds at most 16 entries: exactly the 16
  most recently requested distinct URLs. A call whose URL is cached evicts nothing; a call
  that inserts into a cache of 16 entries evicts exactly one entry, the least recently
  used one; a call that inserts into a smaller cache evicts nothing.
\<close>

theorem geotiffCache_capacity:
  "highWaterMark (geotiffCache initialWorld) = 16 \<and>
   (\<exists>w r w'.
      getTiledData_calls cs initialWorld = Inr w \<and>
      getTiledData_T this p w = Inr (r, w') \<and>
      cacheKeys w = spec_lru_keys 16 (requestedUrls cs) \<and>
      cacheKeys w' = spec_lru_keys 16 (requestedUrls (cs @ [(this, p)])) \<and>
      length (cacheKeys w) \<le> 16 \<and>
      length (cacheKeys w') \<le> 16 \<and>
      (if tileUrl this p \<in> set (cacheKeys w)
       then effects w' = effects w \<and>
            cacheKeys w' = removeAll (tileUrl this p) (cacheKeys w) @ [tileUrl this p]
       else if length (cacheKeys w) = 16
       then effects w' = effects w @
              [FactoryInvoked (tileUrl this p), Evicted (hd (cacheKeys w))] \<and>
            cacheKeys w' = tl (cacheKeys w) @ [tileUrl this p]
       else effects w' = effects w @ [FactoryInvoked (tileUrl this p)] \<and>
            cacheKeys w' = cacheKeys w @ [tileUrl this p]))"
proof -
  obtain w where run: "getTiledData_calls cs initialWorld = Inr w"
    and hw: "highWaterMark (geotiffCache w) = 16"
    and keys: "cacheKeys w = spec_lru_keys 16 (requestedUrls cs)"
    using reachable_keys by blast
  obtain r w' where call: "getTiledData_T this p w = Inr (r, w')"
    using getTiledData_T_total by blast
  have "getTiledData_calls (cs @ [(this, p)]) initialWorld = Inr w'"
    by (simp add: getTiledData_calls_snoc run call)
  then have keys': "cacheKeys w' = spec_lru_keys 16 (requestedUrls (cs @ [(this, p)]))"
    using reachable_keys [of "cs @ [(this, p)]"] by auto
  have len: "length (cacheKeys w) \<le> 16" "length (cacheKeys w') \<le> 16"
    by (simp_all add: keys keys' spec_lru_keys_bound)
  have step: "if tileUrl this p \<in> set (cacheKeys w)
       then effects w' = effects w \<and>
            cacheKeys w' = removeAll (tileUrl this p) (cacheKeys w) @ [tileUrl this p]
       else if length (cacheKeys w) = 16
       then effects w' = effects w @
              [FactoryInvoked (tileUrl this p), Evicted (hd (cacheKeys w))] \<and>
            cacheKeys w' = tl (cacheKeys w) @ [tileUrl this p]
       else effects w' = effects w @ [FactoryInvoked (tileUrl this p)] \<and>
            cacheKeys w' = cacheKeys w @ [tileUrl this p]"
    using effects_step [OF call] cacheKeys_step(1) [OF call] len(1)
    by (auto simp: hw)
  have "highWaterMark (geotiffCache initialWorld) = 16"
    by (simp add: initialWorld_def LRUCache_new_def)
  with run call keys keys' len step show ?thesis
    by blast
qed

lemma exampleCalls_keys:
  "spec_lru_keys 16 (requestedUrls (exampleCalls 16)) =
     [''tiles/0/0/0.tif'', ''tiles/0/0/1.tif'', ''tiles/0/0/2.tif'', ''tiles/0/0/3.tif'',
      ''tiles/0/0/4.tif'', ''tiles/0/0/5.tif'', ''tiles/0/0/6.tif'', ''tiles/0/0/7.tif'',
      ''tiles/0/0/8.tif'', ''tiles/0/0/9.tif'', ''tiles/0/0/10.tif'', ''tiles/0/0/11.tif'',
      ''tiles/0/0/12.tif'', ''tiles/0/0/13.tif'', ''tiles/0/0/14.tif'', ''tiles/0/0/15.tif'']"
  by code_simp

lemma exampleTile_url16: "tileUrl (exampleTiles (Some 0)) (exampleTile 16) = ''tiles/0/0/16.tif''"
  by code_simp

theorem geotiffCache_capacity_witness:
  "\<exists>w r w'.
     getTiledData_calls (exampleCalls 16) initialWorld = Inr w \<and>
     getTiledData_T (exampleTiles (Some 0)) (exampleTile 16) w = Inr (r, w') \<and>
     length (cacheKeys w) = 16 \<and>
     effects w' = effects w @ [FactoryInvoked ''tiles/0/0/16.tif'', Evicted ''tiles/0/0/0.tif''] \<and>
     cacheKeys w' =
       [''tiles/0/0/1.tif'', ''tiles/0/0/2.tif'', ''tiles/0/0/3.tif'',
        ''tiles/0/0/4.tif'', ''tiles/0/0/5.tif'', ''tiles/0/0/6.tif'', ''tiles/0/0/7.tif'',
        ''tiles/0/0/8.tif'', ''tiles/0/0/9.tif'', ''tiles/0/0/10.tif'', ''tiles/0/0/11.tif'',
        ''tiles/0/0/12.tif'', ''tiles/0/0/13.tif'', ''tiles/0/0/14.tif'', ''tiles/0/0/15.tif'',
        ''tiles/0/0/16.tif'']"
  using geotiffCache_capacity
    [where cs = "exampleCalls 16" and this = "exampleTiles (Some 0)" and p = "exampleTile 16"]
  unfolding exampleCalls_keys exampleTile_url16
  by (elim conjE exE) (rule exI conjI | simp)+

lemma orderly_append:
  "orderly live (es @ es') \<longleftrightarrow> orderly live es \<and> orderly (liveAfter live es) es'"
proof (induction es arbitrary: live)
  case Nil
  show ?case by simp
next
  case (Cons e es)
  then show ?case by (cases e) simp_all
qed

lemma liveAfter_append: "liveAfter live (es @ es') = liveAfter (liveAfter live es) es'"
proof (induction es arbitrary: live)
  case Nil
  show ?case by simp
next
  case (Cons e es)
  then show ?case by (cases e) simp_all
qed

lemma traceInv_step:
  assumes inv: "traceInv w" and call: "getTiledData_T this p w = Inr (r, w')"
  shows "traceInv w'"
proof -
  let ?u = "tileUrl this p" and ?ks = "cacheKeys w" and ?live = "liveAfter [] (effects w)"
  from inv have ord: "orderly [] (effects w)" and live: "set ?live = set ?ks"
    and dist: "distinct ?ks"
    by (simp_all add: traceInv_def)
  note keys = cacheKeys_step(1) [OF call] and eff = effects_step [OF call]
  show ?thesis
  proof (cases "?u \<in> set ?ks")
    case True
    have k: "cacheKeys w' = removeAll ?u ?ks @ [?u]"
      using keys True by simp
    have e: "effects w' = effects w"
      using eff True by simp
    show ?thesis
      unfolding traceInv_def k e
      using True ord live dist by (auto simp: distinct_removeAll)
  next
    case False
    show ?thesis
    proof (cases "0 < highWaterMark (geotiffCache w) \<and>
                  highWaterMark (geotiffCache w) \<le> length ?ks")
      case True
      then obtain k rest where ks: "?ks = k # rest"
        by (cases ?ks) auto
      have ne: "k \<noteq> ?u" using False ks by auto
      have k': "cacheKeys w' = rest @ [?u]"
        using keys False True ks by simp
      have e: "effects w' = effects w @ [FactoryInvoked ?u, Evicted k]"
        using eff False True ks by simp
      have l: "set ?live = insert k (set rest)" "k \<notin> set rest" "distinct rest" "?u \<notin> set rest"
        "?u \<notin> set ?live"
        using live dist ks False by auto
      show ?thesis
        unfolding traceInv_def k' e
        using ord l ne by (auto simp: orderly_append liveAfter_append)
    next
      case small: False
      have k: "cacheKeys w' = ?ks @ [?u]"
        using keys False small by simp
      have e: "effects w' = effects w @ [FactoryInvoked ?u]"
        using eff False small by simp
      have l: "?u \<notin> set ?live"
        using live False by simp
      show ?thesis
        unfolding traceInv_def k e
        using False ord live dist l by (simp add: orderly_append liveAfter_append)
    qed
  qed
qed

lemma traceInv_calls:
  "traceInv w \<Longrightarrow> getTiledData_calls cs w = Inr w' \<Longrightarrow> traceInv w'"
proof (induction cs arbitrary: w)
  case Nil
  then show ?case by simp
next
  case (Cons c cs)
  obtain r w1 where call: "getTiledData_T (fst c) (snd c) w = Inr (r, w1)"
    using getTiledData_T_total by blast
  then have "traceInv w1"
    using Cons.prems(1) traceInv_step by blast
  moreover have "getTiledData_calls cs w1 = Inr w'"
    using Cons.prems(2) call by simp
  ultimately show ?case
    by (rule Cons.IH)
qed

lemma traceInv_initial: "traceInv initialWorld"
  by (simp add: traceInv_def initialWorld_def LRUCache_new_def cacheKeys_def)

lemma orderly_evicted_before:
  "orderly live es \<Longrightarrow> u \<in> set live \<Longrightarrow> j < length es \<Longrightarrow>
   es ! j = FactoryInvoked u \<Longrightarrow> \<exists>k<j. es ! k = Evicted u"
proof (induction es arbitrary: live j)
  case Nil
  then show ?case by simp
next
  case (Cons e es)
  show ?case
  proof (cases j)
    case 0
    then show ?thesis using Cons.prems by (cases e) auto
  next
    case (Suc j')
    show ?thesis
    proof (cases e)
      case (FactoryInvoked v)
      then have "\<exists>k<j'. es ! k = Evicted u"
        using Cons.prems Suc by (intro Cons.IH [of "v # live"]) auto
      then obtain k where "k < j'" "es ! k = Evicted u" by blast
      then have "Suc k < j \<and> (e # es) ! Suc k = Evicted u"
        using Suc by simp
      then show ?thesis by blast
    next
      case (Evicted v)
      show ?thesis
      proof (cases "v = u")
        case True
        then have "0 < j \<and> (e # es) ! 0 = Evicted u"
          using Evicted Suc by simp
        then show ?thesis by blast
      next
        case False
        then have "\<exists>k<j'. es ! k = Evicted u"
          using Cons.prems Suc Evicted by (intro Cons.IH [of "removeAll v live"]) auto
        then obtain k where "k < j'" "es ! k = Evicted u" by blast
        then have "Suc k < j \<and> (e # es) ! Suc k = Evicted u"
          using Suc by simp
        then show ?thesis by blast
      qed
    qed
  qed
qed

lemma orderly_between:
  "orderly live es \<Longrightarrow> i < j \<Longrightarrow> j < length es \<Longrightarrow>
   es ! i = FactoryInvoked u \<Longrightarrow> es ! j = FactoryInvoked u \<Longrightarrow>
   \<exists>k. i < k \<and> k < j \<and> es ! k = Evicted u"
proof (induction es arbitrary: live i j)
  case Nil
  then show ?case by simp
next
  case (Cons e es)
  from Cons.prems(2) obtain j' where j: "j = Suc j'"
    by (cases j) auto
  show ?case
  proof (cases i)
    case 0
    then have e: "e = FactoryInvoked u"
      using Cons.prems by simp
    then have "orderly (u # live) es"
      using Cons.prems(1) by simp
    then have "\<exists>k<j'. es ! k = Evicted u"
      using Cons.prems j by (intro orderly_evicted_before [of "u # live"]) auto
    then obtain k where "k < j'" "es ! k = Evicted u" by blast
    then have "i < Suc k \<and> Suc k < j \<and> (e # es) ! Suc k = Evicted u"
      using 0 j by simp
    then show ?thesis by blast
  next
    case (Suc i')
    obtain live' where "orderly live' es"
      using Cons.prems(1) by (cases e) auto
    then have "\<exists>k. i' < k \<and> k < j' \<and> es ! k = Evicted u"
      using Cons.prems Suc j by (intro Cons.IH [of live']) auto
    then obtain k where "i' < k" "k < j'" "es ! k = Evicted u" by blast
    then have "i < Suc k \<and> Suc k < j \<and> (e # es) ! Suc k = Evicted u"
      using Suc j by simp
    then show ?thesis by blast
  qed
qed

lemma exampleRevisit_effects:
  "(case getTiledData_calls exampleRevisit initialWorld of Inl e \<Rightarrow> [] | Inr w \<Rightarrow> effects w) =
     map FactoryInvoked
       [''tiles/0/0/0.tif'', ''tiles/0/0/1.tif'', ''tiles/0/0/2.tif'', ''tiles/0/0/3.tif'',
        ''tiles/0/0/4.tif'', ''tiles/0/0/5.tif'', ''tiles/0/0/6.tif'', ''tiles/0/0/7.tif'',
        ''tiles/0/0/8.tif'', ''tiles/0/0/9.tif'', ''tiles/0/0/10.tif'', ''tiles/0/0/11.tif'',
        ''tiles/0/0/12.tif'', ''tiles/0/0/13.tif'', ''tiles/0/0/14.tif'', ''tiles/0/0/15.tif''] @
     [FactoryInvoked ''tiles/0/0/16.tif'', Evicted ''tiles/0/0/0.tif'',
      FactoryInvoked ''tiles/0/0/0.tif'', Evicted ''tiles/0/0/1.tif'']"
  by code_simp

text \<open>
  Claim C7. Across any sequence of \<^verbatim>\<open>getTiledData\<close> calls, from any instances (they share
  the one cache), the keys of the cache are the URLs whose last factory call was not
  followed by their eviction; a call for a URL that is in the cache invokes no factory;
  and between two factory calls for the same URL that URL was evicted.
\<close>

theorem factory_once_per_cached_url:
  "\<exists>w. getTiledData_calls cs initialWorld = Inr w \<and>
     set (cacheKeys w) = set (liveAfter [] (effects w)) \<and>
     (\<forall>this p r w'.
        getTiledData_T this p w = Inr (r, w') \<and> tileUrl this p \<in> set (cacheKeys w) \<longrightarrow>
        effects w' = effects w) \<and>
     (\<forall>i j u.
        i < j \<and> j < length (effects w) \<and>
        effects w ! i = FactoryInvoked u \<and> effects w ! j = FactoryInvoked u \<longrightarrow>
        (\<exists>k. i < k \<and> k < j \<and> effects w ! k = Evicted u))"
proof -
  obtain w where run: "getTiledData_calls cs initialWorld = Inr w"
    using reachable_keys by blast
  then have inv: "traceInv w"
    using traceInv_initial traceInv_calls by blast
  then have live: "set (cacheKeys w) = set (liveAfter [] (effects w))"
    and ord: "orderly [] (effects w)"
    by (simp_all add: traceInv_def)
  have hit: "\<forall>this p r w'.
        getTiledData_T this p w = Inr (r, w') \<and> tileUrl this p \<in> set (cacheKeys w) \<longrightarrow>
        effects w' = effects w"
  proof (intro allI impI)
    fix this p r w'
    assume "getTiledData_T this p w = Inr (r, w') \<and> tileUrl this p \<in> set (cacheKeys w)"
    then show "effects w' = effects w"
      using effects_step [of this p w r w'] by simp
  qed
  have between: "\<forall>i j u.
        i < j \<and> j < length (effects w) \<and>
        effects w ! i = FactoryInvoked u \<and> effects w ! j = FactoryInvoked u \<longrightarrow>
        (\<exists>k. i < k \<and> k < j \<and> effects w ! k = Evicted u)"
    using orderly_between [OF ord] by blast
  from run live hit between show ?thesis by blast
qed

theorem factory_once_per_cached_url_witness:
  "\<exists>w. getTiledData_calls exampleRevisit initialWorld = Inr w \<and>
     effects w ! 0 = FactoryInvoked ''tiles/0/0/0.tif'' \<and>
     effects w ! 18 = FactoryInvoked ''tiles/0/0/0.tif'' \<and>
     (\<exists>k. 0 < k \<and> k < 18 \<and> effects w ! k = Evicted ''tiles/0/0/0.tif'')"
proof -
  from factory_once_per_cached_url [of exampleRevisit]
  obtain w where run: "getTiledData_calls exampleRevisit initialWorld = Inr w"
    and between: "\<And>i j u. i < j \<and> j < length (effects w) \<and>
        effects w ! i = FactoryInvoked u \<and> effects w ! j = FactoryInvoked u \<Longrightarrow>
        (\<exists>k. i < k \<and> k < j \<and> effects w ! k = Evicted u)"
    by blast
  have e: "effects w =
     map FactoryInvoked
       [''tiles/0/0/0.tif'', ''tiles/0/0/1.tif'', ''tiles/0/0/2.tif'', ''tiles/0/0/3.tif'',
        ''tiles/0/0/4.tif'', ''tiles/0/0/5.tif'', ''tiles/0/0/6.tif'', ''tiles/0/0/7.tif'',
        ''tiles/0/0/8.tif'', ''tiles/0/0/9.tif'', ''tiles/0/0/10.tif'', ''tiles/0/0/11.tif'',
        ''tiles/0/0/12.tif'', ''tiles/0/0/13.tif'', ''tiles/0/0/14.tif'', ''tiles/0/0/15.tif''] @
     [FactoryInvoked ''tiles/0/0/16.tif'', Evicted ''tiles/0/0/0.tif'',
      FactoryInvoked ''tiles/0/0/0.tif'', Evicted ''tiles/0/0/1.tif'']"
    using exampleRevisit_effects by (simp add: run)
  have first: "effects w ! 0 = FactoryInvoked ''tiles/0/0/0.tif''"
    and again: "effects w ! 18 = FactoryInvoked ''tiles/0/0/0.tif''"
    and len: "18 < length (effects w)"
    unfolding e by (simp_all add: nth_append)
  have "\<exists>k. 0 < k \<and> k < 18 \<and> effects w ! k = Evicted ''tiles/0/0/0.tif''"
    using between [of 0 18 "''tiles/0/0/0.tif''"] first again len by simp
  with run first again show ?thesis by blast
qed

end
